theory Spec2Isabelle
  imports Complex_Main "HOL-Library.Log_Nat" "HOL-Library.Sublist"
begin

text \<open>
  The JDA AI Project Portal: a shallow embedding of its file upload component
  (\<open>getFileType\<close>, \<open>formatFileSize\<close>, \<open>validateFile\<close>, \<open>handleFiles\<close>), of the role
  gate \<open>hasRequiredRole\<close>, of the proposal editor (\<open>parseContentIntoSections\<close>,
  \<open>handleSave\<close>, \<open>handleStatusChange\<close>), of the client portal
  (\<open>fetchClientProposals\<close>) and of the bulk update of the team dashboard
  (\<open>handleBulkUpdate\<close>), followed by the properties proved of them. The services
  the components call are not part of the sources; where a property depends on them
  they are modelled from the specification, and marked so.
\<close>

section \<open>Strings\<close>

text \<open>
  JavaScript strings are modelled as \<open>string\<close> (lists of 8-bit characters); the models
  below are exact on strings whose code units are ASCII, which covers every literal
  of the sources (extensions, tag names, URLs).
\<close>

definition toLowerCase_char :: "char \<Rightarrow> char" where
  "toLowerCase_char c =
     (case map_of (zip ''ABCDEFGHIJKLMNOPQRSTUVWXYZ'' ''abcdefghijklmnopqrstuvwxyz'') c of
        Some l \<Rightarrow> l
      | None \<Rightarrow> c)"

definition toLowerCase :: "string \<Rightarrow> string" where
  "toLowerCase s = map toLowerCase_char s"

text \<open>
  \<open>s.split(sep)\<close> for a one-character separator: the result is never empty, so
  \<open>.pop()\<close> on it is \<open>last\<close>.
\<close>

fun split_on :: "char \<Rightarrow> string \<Rightarrow> string list" where
  "split_on sep [] = [[]]"
| "split_on sep (c # cs) =
     (if c = sep then [] # split_on sep cs
      else (case split_on sep cs of [] \<Rightarrow> [[c]] | w # ws \<Rightarrow> (c # w) # ws))"

definition pop :: "string list \<Rightarrow> string" where
  "pop xs = (if xs = [] then [] else last xs)"

text \<open>\<open>s.includes(sub)\<close>: \<open>sub\<close> occurs in \<open>s\<close> as a contiguous substring.\<close>

fun includes_str :: "string \<Rightarrow> string \<Rightarrow> bool" where
  "includes_str [] sub = (sub = [])"
| "includes_str (c # cs) sub = (prefix sub (c # cs) \<or> includes_str cs sub)"

text \<open>\<open>xs.join(sep)\<close>.\<close>

fun join :: "string \<Rightarrow> string list \<Rightarrow> string" where
  "join sep [] = []"
| "join sep [x] = x"
| "join sep (x # y # ys) = x @ sep @ join sep (y # ys)"

text \<open>Decimal rendering of a non-negative integer, as \<open>String(n)\<close> gives it.\<close>

definition digit :: "nat \<Rightarrow> char" where
  "digit d = ''0123456789'' ! d"

fun show_nat :: "nat \<Rightarrow> string" where
  "show_nat n = (if n < 10 then [digit n] else show_nat (n div 10) @ [digit (n mod 10)])"

declare show_nat.simps [simp del]

section \<open>File upload component\<close>

subsection \<open>Data\<close>

text \<open>
  The browser's \<open>File\<close>: \<open>fname\<close> is \<open>file.name\<close>, \<open>ftype\<close> the declared MIME type
  \<open>file.type\<close>, \<open>fsize\<close> is \<open>file.size\<close> in bytes and \<open>fcontent\<close> the bytes themselves.
\<close>

record File =
  fname :: string
  ftype :: string
  fsize :: nat
  fcontent :: string

datatype FileType = Image | Document | Spreadsheet | Presentation | Transcript

datatype UploadStatus = Uploading | Ready | Error

text \<open>
  \<open>UploadedFile\<close>; \<open>file_id\<close> is its \<open>id\<close> and \<open>upload_status\<close> its \<open>status\<close>.
\<close>

record UploadedFile =
  file_id :: string
  filename :: string
  file_type :: FileType
  file_size :: nat
  upload_status :: UploadStatus
  progress :: "nat option"
  error_message :: "string option"

record FileUploadProps =
  maxFiles :: nat
  maxFileSize :: nat
  allowedTypes :: "string list"

definition defaultProps :: FileUploadProps where
  "defaultProps = \<lparr> maxFiles = 10, maxFileSize = 50 * 1024 * 1024,
     allowedTypes = [''.jpg'', ''.jpeg'', ''.png'', ''.gif'', ''.bmp'', ''.webp'', ''.pdf'',
       ''.doc'', ''.docx'', ''.txt'', ''.rtf'', ''.xls'', ''.xlsx'', ''.csv'', ''.ppt'', ''.pptx''] \<rparr>"

subsection \<open>getFileType\<close>

definition extension_of :: "string \<Rightarrow> string" where
  "extension_of name = pop (split_on CHR ''.'' (toLowerCase name))"

definition getFileType :: "string \<Rightarrow> FileType" where
  "getFileType name =
     (let extension = extension_of name in
      if extension \<in> set [''jpg'', ''jpeg'', ''png'', ''gif'', ''bmp'', ''webp''] then Image
      else if extension \<in> set [''xls'', ''xlsx'', ''csv''] then Spreadsheet
      else if extension \<in> set [''ppt'', ''pptx''] then Presentation
      else if extension \<in> set [''txt'', ''docx'', ''pdf'']
              \<and> includes_str (toLowerCase name) ''transcript'' then Transcript
      else Document)"

subsection \<open>formatFileSize\<close>

text \<open>
  The unit index is \<open>Math.floor(Math.log(bytes) / Math.log(k))\<close> with \<open>k = 1024\<close>. The
  quotient is computed in double-precision arithmetic from the results of the
  platform's \<open>Math.log\<close>, which the language leaves to the implementation, so the model
  does not compute it: \<open>logq bytes\<close> stands for the double
  \<open>Math.log(bytes) / Math.log(1024)\<close> the platform yields, and every function that prints
  a size takes \<open>logq\<close> as a parameter. For \<open>bytes \<ge> 1\<close> the quotient is not negative.
  The quotient \<open>bytes / Math.pow(k, i)\<close> is a division by a power of two, and
  \<open>toFixed(2)\<close> rounds it to hundredths, halves upwards.
\<close>

definition sizes :: "string list" where
  "sizes = [''Bytes'', ''KB'', ''MB'', ''GB'']"

definition unit_index :: "(nat \<Rightarrow> real) \<Rightarrow> nat \<Rightarrow> nat" where
  "unit_index logq bytes = nat \<lfloor>logq bytes\<rfloor>"

definition toFixed2 :: "real \<Rightarrow> nat" where
  "toFixed2 x = nat \<lfloor>x * 100 + 1 / 2\<rfloor>"

text \<open>
  \<open>parseFloat\<close> of the two-decimal string followed by the number-to-string conversion of
  \<open>+\<close>: the value in hundredths is printed without trailing zeros.
\<close>

definition show_hundredths :: "nat \<Rightarrow> string" where
  "show_hundredths h =
     (let whole = h div 100; frac = h mod 100 in
      if frac = 0 then show_nat whole
      else if frac mod 10 = 0 then show_nat whole @ ''.'' @ [digit (frac div 10)]
      else show_nat whole @ ''.'' @ [digit (frac div 10), digit (frac mod 10)])"

text \<open>\<open>sizes[i]\<close> beyond the array is \<open>undefined\<close>, which \<open>+\<close> prints as the word.\<close>

definition unit_name :: "nat \<Rightarrow> string" where
  "unit_name i = (if i < length sizes then sizes ! i else ''undefined'')"

definition formatFileSize :: "(nat \<Rightarrow> real) \<Rightarrow> nat \<Rightarrow> string" where
  "formatFileSize logq bytes =
     (if bytes = 0 then ''0 Bytes''
      else let i = unit_index logq bytes in
        show_hundredths (toFixed2 (real bytes / 1024 ^ i)) @ '' '' @ unit_name i)"

subsection \<open>validateFile\<close>

text \<open>
  \<open>validateFile\<close> returns a message or \<open>null\<close>. The three messages it can build are the
  constructors below, each carrying what the message interpolates; \<open>message\<close> prints it.
\<close>

datatype ValidationError =
    FileTooLarge nat nat
  | UnsupportedType string "string list"
  | TooManyFiles nat

fun message :: "(nat \<Rightarrow> real) \<Rightarrow> ValidationError \<Rightarrow> string" where
  "message logq (FileTooLarge sz mx) =
     ''File size ('' @ formatFileSize logq sz @ '') exceeds maximum allowed (''
       @ formatFileSize logq mx @ '')''"
| "message logq (UnsupportedType ext allowed) =
     ''File type '' @ ext @ '' is not allowed. Allowed types: '' @ join '', '' allowed"
| "message logq (TooManyFiles n) = ''Maximum '' @ show_nat n @ '' files allowed''"

text \<open>\<open>n\<close> is \<open>files.length\<close>, the number of stored records the callback closes over.\<close>

definition validateFile :: "FileUploadProps \<Rightarrow> nat \<Rightarrow> File \<Rightarrow> ValidationError option" where
  "validateFile props n file =
     (if fsize file > maxFileSize props then Some (FileTooLarge (fsize file) (maxFileSize props))
      else let extension = ''.'' @ extension_of (fname file) in
        if extension \<notin> set (allowedTypes props)
        then Some (UnsupportedType extension (allowedTypes props))
        else if n \<ge> maxFiles props then Some (TooManyFiles (maxFiles props))
        else None)"

subsection \<open>handleFiles\<close>

record UploadState =
  files :: "UploadedFile list"
  error :: "string option"
  uploading :: bool

text \<open>
  The \<open>forEach\<close> over the dropped files, with its two accumulators. \<open>ids i\<close> stands for
  the identifier \<open>Date.now()-Math.random()\<close> drawn for the \<open>i\<close>-th file of the batch.
\<close>

fun forEach_file ::
  "(nat \<Rightarrow> real) \<Rightarrow> FileUploadProps \<Rightarrow> nat \<Rightarrow> (nat \<Rightarrow> string) \<Rightarrow> nat \<Rightarrow> File list
     \<Rightarrow> UploadedFile list \<times> string list \<Rightarrow> UploadedFile list \<times> string list" where
  "forEach_file logq props n ids i [] acc = acc"
| "forEach_file logq props n ids i (f # fs) (newFiles, errors) =
     (case validateFile props n f of
        Some e \<Rightarrow>
          forEach_file logq props n ids (Suc i) fs
            (newFiles, errors @ [fname f @ '': '' @ message logq e])
      | None \<Rightarrow>
          forEach_file logq props n ids (Suc i) fs
            (newFiles @ [\<lparr> file_id = ids i, filename = fname f, file_type = getFileType (fname f),
                           file_size = fsize f, upload_status = Uploading, progress = Some 0,
                           error_message = None \<rparr>], errors))"

text \<open>
  The result is the new component state and the arguments of the call to \<open>uploadFiles\<close>,
  if it is made. \<open>uploadFiles\<close> sets \<open>uploading\<close> and clears \<open>error\<close> before its first
  request, which is the part of it that belongs to this step.
\<close>

definition handleFiles ::
  "(nat \<Rightarrow> real) \<Rightarrow> FileUploadProps \<Rightarrow> (nat \<Rightarrow> string) \<Rightarrow> UploadState \<Rightarrow> File list
     \<Rightarrow> UploadState \<times> (File list \<times> UploadedFile list) option" where
  "handleFiles logq props ids st fileList =
     (let n = length (files st);
          (newFiles, errors) = forEach_file logq props n ids 0 fileList ([], []);
          st1 = (if errors \<noteq> [] then st\<lparr> error := Some (join [CHR 0x0A] errors) \<rparr> else st)
      in if newFiles \<noteq> []
         then (st1\<lparr> files := files st1 @ newFiles, uploading := True, error := None \<rparr>,
               Some (filter (\<lambda>file. validateFile props n file = None) fileList, newFiles))
         else (st1, None))"

section \<open>Role gate\<close>

text \<open>
  The roles of the route guard, \<open>'client' | 'project_manager' | 'admin'\<close>, and the
  table \<open>roleHierarchy\<close> that \<open>hasRequiredRole\<close> looks both of its arguments up in.
  The source passes the roles as strings; names that are not keys of the table are
  outside this model.
\<close>

datatype Role = Client | ProjectManager | Admin

fun roleHierarchy :: "Role \<Rightarrow> nat" where
  "roleHierarchy Client = 1"
| "roleHierarchy ProjectManager = 2"
| "roleHierarchy Admin = 3"

definition hasRequiredRole :: "Role \<Rightarrow> Role \<Rightarrow> bool" where
  "hasRequiredRole userRole requiredRole \<longleftrightarrow> roleHierarchy userRole \<ge> roleHierarchy requiredRole"

text \<open>
  The ordering the specification fixes, \<open>client < project_manager < admin\<close>, written
  out as the list of its pairs (with the reflexive ones).
\<close>

definition role_le :: "Role \<Rightarrow> Role \<Rightarrow> bool" where
  "role_le a b \<longleftrightarrow> (a, b) \<in> set
     [(Client, Client), (Client, ProjectManager), (Client, Admin),
      (ProjectManager, ProjectManager), (ProjectManager, Admin),
      (Admin, Admin)]"

section \<open>Proposals and the proposal service\<close>

text \<open>
  Modelled from the spec: the type \<open>ProposalStatus\<close> is imported by the editor from
  \<open>../types/proposal\<close>, which is not among the sources; its values are the six states of
  the specification's data model.
\<close>

datatype ProposalStatus = Draft | InReview | Approved | Sent | Accepted | Rejected

text \<open>
  The \<open>Proposal\<close> interface of the client portal; \<open>proposal_id\<close> is its \<open>id\<close>.
\<close>

record Proposal =
  proposal_id :: nat
  project_name :: string
  client_name :: string
  phase :: string
  status :: ProposalStatus
  content :: string
  created_at :: string
  updated_at :: string
  share_token :: "string option"

text \<open>
  Modelled from the spec: the errors of the service, from the specification's error
  taxonomy, and the message an error carries to the component that catches it.
\<close>

datatype ApiError = InvalidTransition | NotFound | InvalidToken | PermissionDenied

fun error_text :: "ApiError \<Rightarrow> string" where
  "error_text InvalidTransition = ''InvalidTransition''"
| "error_text NotFound = ''NotFound''"
| "error_text InvalidToken = ''InvalidToken''"
| "error_text PermissionDenied = ''PermissionDenied''"

text \<open>
  Modelled from the spec: the allowed edges of the status machine,
  draft \<open>\<rightarrow>\<close> in_review \<open>\<rightarrow>\<close> approved \<open>\<rightarrow>\<close> sent \<open>\<rightarrow>\<close> accepted / rejected. The
  sources hold no transition table.
\<close>

definition allowed_transition :: "ProposalStatus \<Rightarrow> ProposalStatus \<Rightarrow> bool" where
  "allowed_transition a b \<longleftrightarrow> (a, b) \<in> set
     [(Draft, InReview), (InReview, Approved), (Approved, Sent),
      (Sent, Accepted), (Sent, Rejected)]"

text \<open>
  Modelled from the spec: \<open>proposalService\<close> (\<open>../services/proposalService\<close>) and the
  store behind it are not among the sources. The store is the table of proposals;
  \<open>createProposal\<close> stores a proposal under a fresh id, \<open>getProposal\<close> fetches by id,
  and \<open>updateProposal\<close> applies a patch to the proposal that \<open>getProposal\<close> would
  fetch, where a status patch outside the allowed edges fails with \<open>InvalidTransition\<close>
  and changes nothing.
\<close>

definition fresh_id :: "Proposal list \<Rightarrow> nat" where
  "fresh_id store = Suc (fold max (map proposal_id store) 0)"

definition createProposal :: "Proposal list \<Rightarrow> Proposal \<Rightarrow> Proposal list \<times> Proposal" where
  "createProposal store p =
     (let created = p\<lparr> proposal_id := fresh_id store \<rparr> in (store @ [created], created))"

definition getProposal :: "Proposal list \<Rightarrow> nat \<Rightarrow> ApiError + Proposal" where
  "getProposal store pid =
     (case find (\<lambda>p. proposal_id p = pid) store of None \<Rightarrow> Inl NotFound | Some p \<Rightarrow> Inr p)"

datatype ProposalPatch = SetContent string | SetStatus ProposalStatus

fun apply_patch :: "ProposalPatch \<Rightarrow> Proposal \<Rightarrow> ApiError + Proposal" where
  "apply_patch (SetContent c) p = Inr (p\<lparr> content := c \<rparr>)"
| "apply_patch (SetStatus s) p =
     (if allowed_transition (status p) s then Inr (p\<lparr> status := s \<rparr>) else Inl InvalidTransition)"

fun update_first ::
  "nat \<Rightarrow> (Proposal \<Rightarrow> ApiError + Proposal) \<Rightarrow> Proposal list
     \<Rightarrow> ApiError + (Proposal list \<times> Proposal)" where
  "update_first pid f [] = Inl NotFound"
| "update_first pid f (q # qs) =
     (if proposal_id q = pid
      then (case f q of Inl e \<Rightarrow> Inl e | Inr q' \<Rightarrow> Inr (q' # qs, q'))
      else (case update_first pid f qs of
              Inl e \<Rightarrow> Inl e
            | Inr (qs', q') \<Rightarrow> Inr (q # qs', q')))"

definition updateProposal ::
  "Proposal list \<Rightarrow> nat \<Rightarrow> ProposalPatch \<Rightarrow> ApiError + (Proposal list \<times> Proposal)" where
  "updateProposal store pid patch = update_first pid (apply_patch patch) store"

section \<open>Proposal editor\<close>

subsection \<open>The section pattern\<close>

text \<open>
  \<open>sectionRegex\<close> is \<open><section[^>]*class="([^"]*)"[^>]*>(.*?)<\/section>\<close> with the flags
  \<open>g\<close> and \<open>s\<close>. The functions below are its backtracking matcher, piece by piece, from
  the right end of the pattern to the left.
\<close>

definition dquote :: char where
  "dquote = CHR 0x22"

definition class_attr :: string where
  "class_attr = ''class='' @ [dquote]"

text \<open>
  \<open>(.*?)lit\<close>: the lazy group takes the shortest text after which \<open>lit\<close> stands; with
  the \<open>s\<close> flag the dot matches every character. The result is the group and what
  follows the literal.
\<close>

fun lazy_until :: "string \<Rightarrow> string \<Rightarrow> (string \<times> string) option" where
  "lazy_until lit [] = (if lit = [] then Some ([], []) else None)"
| "lazy_until lit (c # cs) =
     (if prefix lit (c # cs) then Some ([], drop (length lit) (c # cs))
      else map_option (\<lambda>(body, rest). (c # body, rest)) (lazy_until lit cs))"

text \<open>
  \<open>([^"]*)"[^>]*>(.*?)<\/section>\<close>, read after \<open>class="\<close>. A greedy class that
  excludes the very character that must follow it has one way to match: up to the first
  such character. The result is the class name, the section content and the rest of
  the input.
\<close>

definition match_after_class :: "string \<Rightarrow> (string \<times> string \<times> string) option" where
  "match_after_class t =
     (let className = takeWhile (\<lambda>c. c \<noteq> dquote) t in
      case drop (length className) t of
        [] \<Rightarrow> None
      | q # t2 \<Rightarrow>
          (case dropWhile (\<lambda>c. c \<noteq> CHR ''>'') t2 of
             [] \<Rightarrow> None
           | g # t4 \<Rightarrow>
               map_option (\<lambda>(body, rest). (className, body, rest))
                 (lazy_until ''</section>'' t4)))"

text \<open>
  \<open>[^>]*class="\<close> and the rest, read after \<open><section\<close>: the greedy star first tries
  to take one more character, and falls back to matching \<open>class="\<close> where it stands.
\<close>

fun match_attributes :: "string \<Rightarrow> (string \<times> string \<times> string) option" where
  "match_attributes [] = None"
| "match_attributes (c # cs) =
     (let here = (if prefix class_attr (c # cs)
                  then match_after_class (drop (length class_attr) (c # cs)) else None)
      in if c \<noteq> CHR ''>''
         then (case match_attributes cs of Some m \<Rightarrow> Some m | None \<Rightarrow> here)
         else here)"

text \<open>\<open>sectionRegex.exec\<close>: the leftmost position where the pattern matches.\<close>

fun exec_section :: "string \<Rightarrow> (string \<times> string \<times> string) option" where
  "exec_section [] = None"
| "exec_section (c # cs) =
     (case (if prefix ''<section'' (c # cs)
            then match_attributes (drop (length ''<section'') (c # cs)) else None) of
        Some m \<Rightarrow> Some m
      | None \<Rightarrow> exec_section cs)"

subsection \<open>extractSectionTitle\<close>

text \<open>
  \<open><h[1-6][^>]*>(.*?)<\/h[1-6]>\<close> without the \<open>s\<close> flag: the dot stops at a line
  terminator. Then \<open>replace(/<[^>]*>/g, '')\<close> strips the tags from the group.
\<close>

definition is_h_digit :: "char \<Rightarrow> bool" where
  "is_h_digit c \<longleftrightarrow> c \<in> set ''123456''"

definition closing_h :: "string \<Rightarrow> bool" where
  "closing_h s \<longleftrightarrow>
     (case s of a # b # c # d # e # _ \<Rightarrow>
        a = CHR ''<'' \<and> b = CHR ''/'' \<and> c = CHR ''h'' \<and> is_h_digit d \<and> e = CHR ''>''
      | _ \<Rightarrow> False)"

fun title_group :: "string \<Rightarrow> string option" where
  "title_group [] = None"
| "title_group (c # cs) =
     (if closing_h (c # cs) then Some []
      else if c = CHR 0x0A \<or> c = CHR 0x0D then None
      else map_option ((#) c) (title_group cs))"

definition match_heading :: "string \<Rightarrow> string option" where
  "match_heading s =
     (case s of
        a # b # d # r \<Rightarrow>
          if a = CHR ''<'' \<and> b = CHR ''h'' \<and> is_h_digit d
          then (case dropWhile (\<lambda>c. c \<noteq> CHR ''>'') r of
                  [] \<Rightarrow> None
                | g # t \<Rightarrow> title_group t)
          else None
      | _ \<Rightarrow> None)"

fun first_heading :: "string \<Rightarrow> string option" where
  "first_heading [] = None"
| "first_heading (c # cs) =
     (case match_heading (c # cs) of Some t \<Rightarrow> Some t | None \<Rightarrow> first_heading cs)"

fun strip_tags :: "bool \<Rightarrow> string \<Rightarrow> string" where
  "strip_tags inside [] = []"
| "strip_tags True (c # cs) =
     (if c = CHR ''>'' then strip_tags False cs else strip_tags True cs)"
| "strip_tags False (c # cs) =
     (if c = CHR ''<'' \<and> CHR ''>'' \<in> set cs then strip_tags True cs
      else c # strip_tags False cs)"

definition extractSectionTitle :: "string \<Rightarrow> string" where
  "extractSectionTitle s =
     (case first_heading s of Some t \<Rightarrow> strip_tags False t | None \<Rightarrow> ''Untitled Section'')"

subsection \<open>parseContentIntoSections\<close>

text \<open>
  \<open>EditableSection\<close>; \<open>section_id\<close> is its \<open>id\<close> and \<open>section_content\<close> its \<open>content\<close>.
\<close>

record EditableSection =
  section_id :: string
  title :: string
  section_content :: string
  editable :: bool
  aiGenerated :: bool

definition make_section :: "nat \<Rightarrow> string \<Rightarrow> string \<Rightarrow> EditableSection" where
  "make_section index className sectionContent =
     \<lparr> section_id = ''section-'' @ show_nat index,
       title = extractSectionTitle sectionContent,
       section_content = sectionContent,
       editable = (\<not> includes_str className ''header'' \<and> \<not> includes_str className ''footer''),
       aiGenerated = includes_str className ''ai-generated'' \<rparr>"

lemma lazy_until_length: "lazy_until lit s = Some (body, rest) \<Longrightarrow> length rest \<le> length s"
proof (induction s arbitrary: body)
  case Nil
  then show ?case by (simp split: if_splits)
next
  case (Cons c cs)
  show ?case
  proof (cases "prefix lit (c # cs)")
    case True
    with Cons.prems show ?thesis by auto
  next
    case False
    with Cons.prems obtain b where "lazy_until lit cs = Some (b, rest)" by auto
    with Cons.IH [of b] show ?thesis by simp
  qed
qed

lemma match_after_class_length:
  assumes "match_after_class t = Some (className, body, rest)"
  shows "length rest < length t"
proof -
  let ?cn = "takeWhile (\<lambda>c. c \<noteq> dquote) t"
  from assms obtain q t2 where t2: "drop (length ?cn) t = q # t2"
    by (auto simp add: match_after_class_def Let_def split: list.splits)
  from assms t2 obtain g t4 where t4: "dropWhile (\<lambda>c. c \<noteq> CHR ''>'') t2 = g # t4"
    by (auto simp add: match_after_class_def Let_def split: list.splits)
  from assms t2 t4 obtain b where "lazy_until ''</section>'' t4 = Some (b, rest)"
    by (auto simp add: match_after_class_def Let_def)
  then have "length rest \<le> length t4" by (rule lazy_until_length)
  moreover have "length (g # t4) \<le> length t2"
    unfolding t4 [symmetric] by (rule length_dropWhile_le)
  moreover have "length (q # t2) \<le> length t"
    unfolding t2 [symmetric] by simp
  ultimately show ?thesis by simp
qed

lemma match_attributes_length:
  "match_attributes s = Some (className, body, rest) \<Longrightarrow> length rest < length s"
proof (induction s)
  case Nil
  then show ?case by simp
next
  case (Cons c cs)
  let ?here = "if prefix class_attr (c # cs)
               then match_after_class (drop (length class_attr) (c # cs)) else None"
  have here: "length rest < length (c # cs)" if "?here = Some (className, body, rest)"
  proof -
    from that have "match_after_class (drop (length class_attr) (c # cs))
        = Some (className, body, rest)"
      by (simp split: if_splits)
    then have "length rest < length (drop (length class_attr) (c # cs))"
      by (rule match_after_class_length)
    then show ?thesis by simp
  qed
  show ?case
  proof (cases "c \<noteq> CHR ''>'' \<and> match_attributes cs \<noteq> None")
    case True
    with Cons.prems have "match_attributes cs = Some (className, body, rest)"
      by (auto simp add: Let_def)
    with Cons.IH show ?thesis by simp
  next
    case False
    with Cons.prems have "?here = Some (className, body, rest)"
      by (auto simp add: Let_def split: option.splits if_splits)
    then show ?thesis by (rule here)
  qed
qed

lemma exec_section_length:
  "exec_section s = Some (className, body, rest) \<Longrightarrow> length rest < length s"
proof (induction s)
  case Nil
  then show ?case by simp
next
  case (Cons c cs)
  show ?case
  proof (cases "prefix ''<section'' (c # cs) \<and>
      match_attributes (drop (length ''<section'') (c # cs)) \<noteq> None")
    case True
    with Cons.prems have "match_attributes (drop (length ''<section'') (c # cs))
        = Some (className, body, rest)"
      by auto
    then have "length rest < length (drop (length ''<section'') (c # cs))"
      by (rule match_attributes_length)
    then show ?thesis by simp
  next
    case False
    with Cons.prems have "exec_section cs = Some (className, body, rest)"
      by (auto split: option.splits if_splits)
    with Cons.IH show ?thesis by simp
  qed
qed

text \<open>
  The \<open>while\<close> loop: every match yields a section, and the search resumes where the
  match ended.
\<close>

function collect_sections :: "nat \<Rightarrow> string \<Rightarrow> EditableSection list" where
  "collect_sections index s =
     (case exec_section s of
        None \<Rightarrow> []
      | Some (className, sectionContent, rest) \<Rightarrow>
          make_section index className sectionContent # collect_sections (Suc index) rest)"
  by pat_completeness auto
termination
  by (relation "measure (\<lambda>(index, s). length s)") (auto dest: exec_section_length)

declare collect_sections.simps [simp del]

definition parseContentIntoSections :: "string \<Rightarrow> EditableSection list" where
  "parseContentIntoSections c =
     (let sections = collect_sections 0 c in
      if sections \<noteq> [] then sections
      else [\<lparr> section_id = ''main-content'', title = ''Main Content'', section_content = c,
              editable = True, aiGenerated = False \<rparr>])"

subsection \<open>Editor state and handlers\<close>

record EditorState =
  proposal :: "Proposal option"
  sections :: "EditableSection list"
  editor_error :: "string option"
  editMode :: bool

definition loadProposal :: "Proposal list \<Rightarrow> nat \<Rightarrow> EditorState \<Rightarrow> EditorState" where
  "loadProposal store proposalId st =
     (case getProposal store proposalId of
        Inr data \<Rightarrow>
          st\<lparr> proposal := Some data, editor_error := None,
              sections := (if content data \<noteq> [] then parseContentIntoSections (content data)
                           else sections st) \<rparr>
      | Inl e \<Rightarrow> st\<lparr> editor_error := Some (error_text e) \<rparr>)"

text \<open>The content \<open>handleSave\<close> rebuilds from the sections.\<close>

definition wrap_section :: "EditableSection \<Rightarrow> string" where
  "wrap_section s =
     ''<section class='' @ [dquote] @ ''section '' @ (if aiGenerated s then ''ai-generated'' else [])
       @ [dquote] @ ''>'' @ section_content s @ ''</section>''"

definition updatedContent :: "EditableSection list \<Rightarrow> string" where
  "updatedContent secs = join [CHR 0x0A] (map wrap_section secs)"

definition handleSave ::
  "Proposal list \<Rightarrow> nat \<Rightarrow> EditorState \<Rightarrow> Proposal list \<times> EditorState" where
  "handleSave store proposalId st =
     (case proposal st of
        None \<Rightarrow> (store, st)
      | Some p \<Rightarrow>
          (case updateProposal store proposalId (SetContent (updatedContent (sections st))) of
             Inr (store', updatedProposal) \<Rightarrow>
               (store', st\<lparr> proposal := Some updatedProposal, editMode := False,
                            editor_error := None \<rparr>)
           | Inl e \<Rightarrow> (store, st\<lparr> editor_error := Some (error_text e) \<rparr>)))"

definition handleStatusChange ::
  "Proposal list \<Rightarrow> nat \<Rightarrow> EditorState \<Rightarrow> ProposalStatus \<Rightarrow> Proposal list \<times> EditorState" where
  "handleStatusChange store proposalId st newStatus =
     (case proposal st of
        None \<Rightarrow> (store, st)
      | Some p \<Rightarrow>
          (case updateProposal store proposalId (SetStatus newStatus) of
             Inr (store', updatedProposal) \<Rightarrow> (store', st\<lparr> proposal := Some updatedProposal \<rparr>)
           | Inl e \<Rightarrow> (store, st\<lparr> editor_error := Some (error_text e) \<rparr>)))"

subsection \<open>Saved form of a section\<close>

text \<open>
  The class attribute \<open>handleSave\<close> writes for a section, and the sections the parser
  yields, numbered from \<open>i\<close>, when it reads back what \<open>handleSave\<close> wrote for a list of
  sections. Both are used to state properties of the editor.
\<close>

definition class_of :: "EditableSection \<Rightarrow> string" where
  "class_of s = ''section '' @ (if aiGenerated s then ''ai-generated'' else [])"

fun reparsed :: "nat \<Rightarrow> EditableSection list \<Rightarrow> EditableSection list" where
  "reparsed i [] = []"
| "reparsed i (s # ss) = make_section i (class_of s) (section_content s) # reparsed (Suc i) ss"

section \<open>Client portal\<close>

record ClientPortalProps =
  clientId :: "nat option"
  shareToken :: "string option"
  isPublicAccess :: bool

text \<open>The request \<open>fetch\<close> is called with; \<open>GET\<close> is the method \<open>fetch\<close> defaults to.\<close>

record Request =
  http_method :: string
  url :: string
  authorization :: string
  content_type :: string

datatype ResponseData = Array "Proposal list" | Single Proposal

datatype Response = Ok ResponseData | Failed string

record PortalState =
  proposals :: "Proposal list"
  selectedProposal :: "Proposal option"
  loading :: bool
  portal_error :: "string option"

text \<open>
  The request of \<open>fetchClientProposals\<close>. \<open>token\<close> is \<open>localStorage.getItem('token')\<close>;
  a missing or empty \<open>shareToken\<close> is falsy.
\<close>

definition status_params :: string where
  "status_params = join ''&'' [''status=approved'', ''status=sent'', ''status=accepted'']"

definition fetchClientProposals_request :: "ClientPortalProps \<Rightarrow> string option \<Rightarrow> Request" where
  "fetchClientProposals_request props token =
     \<lparr> http_method = ''GET'',
       url = (case (isPublicAccess props, shareToken props) of
                (True, Some (c # cs)) \<Rightarrow> ''/api/v1/proposals/shared/'' @ (c # cs)
              | _ \<Rightarrow> ''/api/v1/proposals/'' @ ''?'' @ status_params),
       authorization = (if isPublicAccess props then []
                        else ''Bearer '' @ (case token of None \<Rightarrow> ''null'' | Some t \<Rightarrow> t)),
       content_type = ''application/json'' \<rparr>"

definition fetchClientProposals ::
  "(Request \<Rightarrow> Response) \<Rightarrow> ClientPortalProps \<Rightarrow> string option \<Rightarrow> PortalState \<Rightarrow> PortalState" where
  "fetchClientProposals fetch props token st =
     (case fetch (fetchClientProposals_request props token) of
        Failed statusText \<Rightarrow>
          st\<lparr> loading := False,
              portal_error := Some (''Failed to fetch proposals: '' @ statusText) \<rparr>
      | Ok data \<Rightarrow>
          (let proposalList = (case data of Array ps \<Rightarrow> ps | Single p \<Rightarrow> [p]) in
           st\<lparr> proposals := proposalList,
               selectedProposal := (case proposalList of [] \<Rightarrow> selectedProposal st
                                    | p # ps \<Rightarrow> Some p),
               loading := False, portal_error := None \<rparr>))"

subsection \<open>The service behind the portal\<close>

text \<open>
  Modelled from the spec: the REST service under \<open>/api/v1/proposals\<close> is not among the
  sources. It holds the proposals, the client assignments (proposal id, client's user
  id) and the users behind the bearer tokens. The shared endpoint answers with the
  proposal that carries the share token, without authentication; the listing answers an
  authenticated user, and a user with role client gets only the proposals assigned to
  that client.
\<close>

record User =
  user_id :: nat
  email :: string
  role :: Role

record Server =
  proposals_table :: "Proposal list"
  assignments :: "(nat \<times> nat) list"
  sessions :: "(string \<times> User) list"

definition strip_prefix :: "string \<Rightarrow> string \<Rightarrow> string option" where
  "strip_prefix p s = (if prefix p s then Some (drop (length p) s) else None)"

definition status_names :: "(string \<times> ProposalStatus) list" where
  "status_names = [(''draft'', Draft), (''in_review'', InReview), (''approved'', Approved),
     (''sent'', Sent), (''accepted'', Accepted), (''rejected'', Rejected)]"

definition query_statuses :: "string \<Rightarrow> ProposalStatus list" where
  "query_statuses q =
     List.map_filter
       (\<lambda>kv. case strip_prefix ''status='' kv of None \<Rightarrow> None | Some v \<Rightarrow> map_of status_names v)
       (split_on CHR ''&'' q)"

definition assigned_to :: "Server \<Rightarrow> nat \<Rightarrow> Proposal \<Rightarrow> bool" where
  "assigned_to srv uid p \<longleftrightarrow> (proposal_id p, uid) \<in> set (assignments srv)"

definition list_proposals :: "Server \<Rightarrow> User \<Rightarrow> ProposalStatus list \<Rightarrow> Proposal list" where
  "list_proposals srv u statuses =
     filter (\<lambda>p. (statuses = [] \<or> status p \<in> set statuses) \<and>
                 (if role u = Client then assigned_to srv (user_id u) p else True))
       (proposals_table srv)"

definition authenticate :: "Server \<Rightarrow> string \<Rightarrow> User option" where
  "authenticate srv header =
     (case strip_prefix ''Bearer '' header of
        None \<Rightarrow> None
      | Some t \<Rightarrow> map_of (sessions srv) t)"

definition serve :: "Server \<Rightarrow> Request \<Rightarrow> Response" where
  "serve srv req =
     (case strip_prefix ''/api/v1/proposals/shared/'' (url req) of
        Some tok \<Rightarrow>
          (case find (\<lambda>p. share_token p = Some tok) (proposals_table srv) of
             None \<Rightarrow> Failed ''Not Found''
           | Some p \<Rightarrow> Ok (Single p))
      | None \<Rightarrow>
          (case strip_prefix ''/api/v1/proposals/?'' (url req) of
             None \<Rightarrow> Failed ''Not Found''
           | Some q \<Rightarrow>
               (case authenticate srv (authorization req) of
                  None \<Rightarrow> Failed ''Unauthorized''
                | Some u \<Rightarrow> Ok (Array (list_proposals srv u (query_statuses q))))))"

section \<open>Team dashboard\<close>

text \<open>
  The part of the team dashboard that changes statuses: the bulk-update dialog and
  \<open>handleBulkUpdate\<close>. \<open>ProposalSummary\<close> has the fields \<open>id\<close>, \<open>title\<close>, \<open>status\<close>,
  \<open>created_at\<close>, \<open>updated_at\<close>, \<open>creator_name\<close> and \<open>phase\<close>; \<open>update_data\<close> is a
  \<open>Record<string, any>\<close> in which the dialog stores strings.
\<close>

record ProposalSummary =
  summary_id :: string
  summary_title :: string
  summary_status :: string
  summary_created_at :: string
  summary_updated_at :: string
  creator_name :: string
  summary_phase :: string

record BulkUpdateOperation =
  operation_type :: string
  proposal_ids :: "string list"
  update_data :: "string \<rightharpoonup> string"

definition initialBulkOperation :: BulkUpdateOperation where
  "initialBulkOperation =
     \<lparr> operation_type = ''status_update'', proposal_ids = [], update_data = Map.empty \<rparr>"

text \<open>
  The answer of the bulk-update request: \<open>BulkFailed\<close> is a response that is not \<open>ok\<close>,
  \<open>BulkOk\<close> carries the fields \<open>success\<close> and \<open>errors\<close> of the JSON body. \<open>ListResponse\<close>
  is the answer to the request of \<open>loadProposals\<close>.
\<close>

record BulkResult =
  bulk_success :: bool
  bulk_errors :: "string list"

datatype BulkResponse = BulkOk BulkResult | BulkFailed

datatype ListResponse = ListOk "ProposalSummary list" | ListFailed

record DashboardState =
  dashboard_proposals :: "ProposalSummary list"
  selectedProposals :: "string list"
  bulkOperation :: BulkUpdateOperation
  bulkUpdateDialogOpen :: bool
  dashboard_error :: "string option"

text \<open>
  The values the status \<open>Select\<close> of the dialog offers, and its \<open>onChange\<close>.
\<close>

definition bulk_status_options :: "string list" where
  "bulk_status_options = [''draft'', ''in_review'', ''approved'', ''completed'']"

definition select_bulk_status :: "string \<Rightarrow> DashboardState \<Rightarrow> DashboardState" where
  "select_bulk_status v st =
     st\<lparr> bulkOperation :=
       (bulkOperation st)\<lparr> update_data := (update_data (bulkOperation st))(''status'' \<mapsto> v) \<rparr> \<rparr>"

text \<open>
  \<open>loadProposals\<close>, given the answer its request gets (the filters of the request are
  left out).
\<close>

definition loadProposals :: "ListResponse \<Rightarrow> DashboardState \<Rightarrow> DashboardState" where
  "loadProposals response st =
     (case response of
        ListOk d \<Rightarrow> st\<lparr> dashboard_proposals := d \<rparr>
      | ListFailed \<Rightarrow> st\<lparr> dashboard_error := Some ''Failed to load proposals'' \<rparr>)"

subsection \<open>The bulk-update endpoint\<close>

text \<open>
  Modelled from the spec: the endpoint \<open>/api/v1/team-dashboard/bulk-update\<close> is not
  among the sources. For the operation \<open>status_update\<close> it attempts, for each listed
  proposal id in turn, the transition to the status that \<open>update_data\<close> names. An attempt
  fails with \<open>NotFound\<close> when the id names no proposal, and with \<open>InvalidTransition\<close> when
  \<open>update_data\<close> holds no status, holds a name that is none of the six statuses, or the
  edge is not an allowed one; a failed attempt changes nothing. The answer lists the
  failed attempts, and \<open>success\<close> says that there was none. What the endpoint does for
  the other operations is not specified; it is the parameter \<open>other\<close>.
\<close>

definition digit_value :: "char \<Rightarrow> nat option" where
  "digit_value c = map_of (zip ''0123456789'' [0, 1, 2, 3, 4, 5, 6, 7, 8, 9]) c"

fun parse_digits :: "nat \<Rightarrow> string \<Rightarrow> nat option" where
  "parse_digits acc [] = Some acc"
| "parse_digits acc (c # cs) =
     (case digit_value c of None \<Rightarrow> None | Some d \<Rightarrow> parse_digits (10 * acc + d) cs)"

definition parse_id :: "string \<Rightarrow> nat option" where
  "parse_id s = (if s = [] then None else parse_digits 0 s)"

definition requested_status :: "BulkUpdateOperation \<Rightarrow> ProposalStatus option" where
  "requested_status operation =
     (case update_data operation ''status'' of
        None \<Rightarrow> None
      | Some name \<Rightarrow> map_of status_names name)"

fun attempt_transition :: "ProposalStatus option \<Rightarrow> Proposal \<Rightarrow> ApiError + Proposal" where
  "attempt_transition None p = Inl InvalidTransition"
| "attempt_transition (Some s) p = apply_patch (SetStatus s) p"

fun transition_allowed :: "ProposalStatus option \<Rightarrow> Proposal \<Rightarrow> bool" where
  "transition_allowed None p = False"
| "transition_allowed (Some s) p = allowed_transition (status p) s"

text \<open>
  How a proposal can differ after any number of attempts at one target: not at all, or
  by the one allowed step to the target.
\<close>

definition moved :: "ProposalStatus option \<Rightarrow> Proposal \<Rightarrow> Proposal \<Rightarrow> bool" where
  "moved target q q' \<longleftrightarrow>
     q' = q \<or> (\<exists>s. target = Some s \<and> allowed_transition (status q) s \<and> q' = q\<lparr> status := s \<rparr>)"

definition attempt_on ::
  "ProposalStatus option \<Rightarrow> string \<Rightarrow> Proposal list \<Rightarrow> ApiError + (Proposal list \<times> Proposal)" where
  "attempt_on target i store =
     (case parse_id i of
        None \<Rightarrow> Inl NotFound
      | Some pid \<Rightarrow> update_first pid (attempt_transition target) store)"

fun bulk_status_update ::
  "ProposalStatus option \<Rightarrow> string list \<Rightarrow> Proposal list \<Rightarrow> Proposal list \<times> string list" where
  "bulk_status_update target [] store = (store, [])"
| "bulk_status_update target (i # ids) store =
     (case attempt_on target i store of
        Inl e \<Rightarrow>
          (case bulk_status_update target ids store of
             (store', errs) \<Rightarrow> (store', (i @ '': '' @ error_text e) # errs))
      | Inr (store1, p') \<Rightarrow> bulk_status_update target ids store1)"

definition bulk_update ::
  "(Proposal list \<Rightarrow> BulkUpdateOperation \<Rightarrow> Proposal list \<times> BulkResponse)
     \<Rightarrow> Proposal list \<Rightarrow> BulkUpdateOperation \<Rightarrow> Proposal list \<times> BulkResponse" where
  "bulk_update other store operation =
     (if operation_type operation = ''status_update''
      then (case bulk_status_update (requested_status operation) (proposal_ids operation) store of
              (store', errs) \<Rightarrow>
                (store', BulkOk \<lparr> bulk_success = (errs = []), bulk_errors = errs \<rparr>))
      else other store operation)"

subsection \<open>handleBulkUpdate\<close>

text \<open>
  \<open>listing\<close> is the answer the request of \<open>loadProposals\<close> gets after a successful
  update.
\<close>

definition handleBulkUpdate ::
  "(Proposal list \<Rightarrow> BulkUpdateOperation \<Rightarrow> Proposal list \<times> BulkResponse) \<Rightarrow> ListResponse
     \<Rightarrow> Proposal list \<Rightarrow> DashboardState \<Rightarrow> Proposal list \<times> DashboardState" where
  "handleBulkUpdate other listing store st =
     (let operation = (bulkOperation st)\<lparr> proposal_ids := selectedProposals st \<rparr> in
      case bulk_update other store operation of
        (store', BulkFailed) \<Rightarrow>
          (store', st\<lparr> dashboard_error := Some ''Failed to perform bulk update'' \<rparr>)
      | (store', BulkOk result) \<Rightarrow>
          if bulk_success result
          then (store',
                (loadProposals listing (st\<lparr> bulkUpdateDialogOpen := False \<rparr>))
                  \<lparr> selectedProposals := [], bulkOperation := initialBulkOperation \<rparr>)
          else (store',
                st\<lparr> dashboard_error :=
                  Some (''Bulk update completed with errors: ''
                    @ join '', '' (bulk_errors result)) \<rparr>))"

section \<open>Example data\<close>

text \<open>Concrete inputs on which the properties below are exercised.\<close>

text \<open>
  A platform whose quotient \<open>Math.log(bytes) / Math.log(1024)\<close> is the exact one; the
  examples that print a size are run on it.
\<close>

definition exact_quotient :: "nat \<Rightarrow> real" where
  "exact_quotient bytes = ln (real bytes) / ln 1024"

text \<open>A state with nine stored files and a batch of two valid files.\<close>

definition stored9 :: UploadState where
  "stored9 = \<lparr> files = replicate 9 \<lparr> file_id = ''f'', filename = ''old.png'', file_type = Image,
       file_size = 1, upload_status = Ready, progress = Some 100, error_message = None \<rparr>,
     error = None, uploading = False \<rparr>"

definition batch2 :: "File list" where
  "batch2 = [\<lparr> fname = ''a.png'', ftype = ''image/png'', fsize = 10, fcontent = [] \<rparr>,
             \<lparr> fname = ''b.pdf'', ftype = ''application/pdf'', fsize = 20, fcontent = [] \<rparr>]"

definition two_sections :: "EditableSection list" where
  "two_sections =
     [\<lparr> section_id = ''section-0'', title = ''Scope'',
        section_content = ''<h2>Scope</h2><p>Build it</p>'', editable = True, aiGenerated = True \<rparr>,
      \<lparr> section_id = ''section-1'', title = ''Untitled Section'',
        section_content = ''<p>Terms</p>'', editable = True, aiGenerated = False \<rparr>]"

definition hello_proposal :: Proposal where
  "hello_proposal = \<lparr> proposal_id = 7, project_name = ''Portal'', client_name = ''ACME'',
     phase = ''discovery'', status = Draft, content = ''<p>Hello</p>'', created_at = ''2024-01-01'',
     updated_at = ''2024-01-02'', share_token = None \<rparr>"

definition header_content :: string where
  "header_content = ''<section class='' @ [dquote] @ ''header'' @ [dquote] @ ''><h1>Offer</h1></section>''"


definition acme_offer :: Proposal where
  "acme_offer = \<lparr> proposal_id = 1, project_name = ''Portal'', client_name = ''ACME'',
     phase = ''discovery'', status = Sent, content = ''<p>Offer</p>'', created_at = ''2024-01-01'',
     updated_at = ''2024-01-02'', share_token = Some ''abc123'' \<rparr>"

definition globex_offer :: Proposal where
  "globex_offer = \<lparr> proposal_id = 2, project_name = ''Shop'', client_name = ''Globex'',
     phase = ''development'', status = Approved, content = ''<p>Quote</p>'',
     created_at = ''2024-02-01'', updated_at = ''2024-02-02'', share_token = None \<rparr>"

definition acme_user :: User where
  "acme_user = \<lparr> user_id = 10, email = ''client1@testcompany.com'', role = Client \<rparr>"

definition demo_server :: Server where
  "demo_server = \<lparr> proposals_table = [acme_offer, globex_offer],
     assignments = [(1, 10), (2, 11)], sessions = [(''jwt-acme'', acme_user)] \<rparr>"

definition client_props :: ClientPortalProps where
  "client_props = \<lparr> clientId = Some 10, shareToken = None, isPublicAccess = False \<rparr>"

definition empty_portal :: PortalState where
  "empty_portal = \<lparr> proposals = [], selectedProposal = None, loading = True, portal_error = None \<rparr>"

definition draft_proposal :: Proposal where
  "draft_proposal = \<lparr> proposal_id = 1, project_name = ''Shop'', client_name = ''Globex'',
     phase = ''exploratory'', status = Draft, content = ''<p>Plan</p>'',
     created_at = ''2024-03-01'', updated_at = ''2024-03-02'', share_token = None \<rparr>"

definition bulk_dialog :: DashboardState where
  "bulk_dialog = \<lparr> dashboard_proposals = [], selectedProposals = [''1'', ''7''],
     bulkOperation = initialBulkOperation, bulkUpdateDialogOpen = True,
     dashboard_error = None \<rparr>"

definition no_other_operation ::
  "Proposal list \<Rightarrow> BulkUpdateOperation \<Rightarrow> Proposal list \<times> BulkResponse" where
  "no_other_operation store operation = (store, BulkFailed)"

definition sent_proposal :: Proposal where
  "sent_proposal = \<lparr> proposal_id = 7, project_name = ''Portal'', client_name = ''ACME'',
     phase = ''discovery'', status = Sent, content = ''<p>Offer</p>'', created_at = ''2024-01-01'',
     updated_at = ''2024-01-02'', share_token = None \<rparr>"

definition editing :: "Proposal \<Rightarrow> EditorState" where
  "editing p = \<lparr> proposal = Some p, sections = [], editor_error = None, editMode = False \<rparr>"

section \<open>Properties of the file upload component\<close>

subsection \<open>Computing formatFileSize on the exact platform\<close>

lemma unit_index_floorlog: "0 < b \<Longrightarrow> unit_index exact_quotient b = floorlog 1024 b - 1"
  by (simp add: unit_index_def exact_quotient_def floorlog_def log_def)

lemma toFixed2_quotient:
  assumes "0 < d"
  shows "toFixed2 (real b / real d) = (200 * b + d) div (2 * d)"
proof -
  have "real b / real d * 100 + 1 / 2 = real (200 * b + d) / real (2 * d)"
    using assms by (simp add: field_simps)
  then have "\<lfloor>real b / real d * 100 + 1 / 2\<rfloor> = \<lfloor>real (200 * b + d) / real (2 * d)\<rfloor>"
    by simp
  also have "\<dots> = int ((200 * b + d) div (2 * d))"
    by (rule floor_divide_of_nat_eq)
  finally show ?thesis by (simp add: toFixed2_def)
qed

lemma formatFileSize_compute:
  "formatFileSize exact_quotient b =
     (if b = 0 then ''0 Bytes''
      else let i = floorlog 1024 b - 1 in
        show_hundredths ((200 * b + 1024 ^ i) div (2 * 1024 ^ i)) @ '' '' @ unit_name i)"
proof (cases "b = 0")
  case True
  then show ?thesis by (simp add: formatFileSize_def)
next
  case False
  have "toFixed2 (real b / 1024 ^ i) = (200 * b + 1024 ^ i) div (2 * 1024 ^ i)" for i
    using toFixed2_quotient [of "1024 ^ i" b] by simp
  then show ?thesis using False
    by (simp add: formatFileSize_def unit_index_floorlog Let_def)
qed

lemmas formatFileSize_eval =
  formatFileSize_compute compute_floorlog show_hundredths_def show_nat.simps digit_def
  unit_name_def sizes_def

subsection \<open>The loop of handleFiles\<close>

lemma forEach_file_records:
  "\<exists>new. fst (forEach_file logq props n ids i fs acc) = fst acc @ new \<and>
     map (\<lambda>r. (filename r, file_size r)) new =
       map (\<lambda>f. (fname f, fsize f)) (filter (\<lambda>f. validateFile props n f = None) fs)"
proof (induction fs arbitrary: i acc)
  case Nil
  then show ?case by simp
next
  case (Cons f fs)
  obtain newFiles errors where acc: "acc = (newFiles, errors)" by (cases acc)
  show ?case
  proof (cases "validateFile props n f")
    case None
    let ?r = "\<lparr> file_id = ids i, filename = fname f, file_type = getFileType (fname f),
                file_size = fsize f, upload_status = Uploading, progress = Some 0,
                error_message = None \<rparr>"
    from Cons.IH [of "Suc i" "(newFiles @ [?r], errors)"]
    obtain new where new: "fst (forEach_file logq props n ids (Suc i) fs (newFiles @ [?r], errors))
          = (newFiles @ [?r]) @ new"
        "map (\<lambda>r. (filename r, file_size r)) new =
           map (\<lambda>f. (fname f, fsize f)) (filter (\<lambda>f. validateFile props n f = None) fs)"
      by auto
    show ?thesis
      by (rule exI [of _ "?r # new"]) (simp add: acc None new)
  next
    case (Some e)
    from Cons.IH [of "Suc i" "(newFiles, errors @ [fname f @ '': '' @ message logq e])"]
    show ?thesis by (simp add: acc Some)
  qed
qed

lemma handleFiles_result:
  assumes "forEach_file logq props (length (files st)) ids 0 fileList ([], []) = (new, errs)"
  shows "files (fst (handleFiles logq props ids st fileList)) = files st @ new"
    and "snd (handleFiles logq props ids st fileList) =
           (if new = [] then None
            else Some (filter (\<lambda>f. validateFile props (length (files st)) f = None) fileList, new))"
  using assms by (simp_all add: handleFiles_def Let_def)

lemma handleFiles_records:
  "\<exists>new. files (fst (handleFiles logq props ids st fileList)) = files st @ new \<and>
     map (\<lambda>r. (filename r, file_size r)) new =
       map (\<lambda>f. (fname f, fsize f))
         (filter (\<lambda>f. validateFile props (length (files st)) f = None) fileList) \<and>
     snd (handleFiles logq props ids st fileList) =
       (if new = [] then None
        else Some (filter (\<lambda>f. validateFile props (length (files st)) f = None) fileList, new))"
proof -
  obtain new errs where
    run: "forEach_file logq props (length (files st)) ids 0 fileList ([], []) = (new, errs)"
    by (cases "forEach_file logq props (length (files st)) ids 0 fileList ([], [])")
  from forEach_file_records [of logq props "length (files st)" ids 0 fileList "([], [])"]
  have "map (\<lambda>r. (filename r, file_size r)) new =
       map (\<lambda>f. (fname f, fsize f))
         (filter (\<lambda>f. validateFile props (length (files st)) f = None) fileList)"
    by (simp add: run)
  with handleFiles_result [OF run] show ?thesis by blast
qed

lemmas name_eval = extension_of_def pop_def toLowerCase_def toLowerCase_char_def

subsection \<open>Oversized files\<close>

text \<open>
  Claim C3. A file whose size exceeds \<open>maxFileSize\<close> is always rejected by \<open>validateFile\<close>
  with the file-too-large error, whatever its name and however many files are stored.
  In \<open>handleFiles\<close> no record is created for it: the records appended to the stored
  list are exactly those of the files that pass validation, in order, the oversized
  file is not among them, every new record has a size within the ceiling, and
  \<open>uploadFiles\<close> receives only the accepted files.
\<close>

theorem oversize_file_rejected:
  assumes "maxFileSize props < fsize file"
  shows "validateFile props n file = Some (FileTooLarge (fsize file) (maxFileSize props)) \<and>
    (\<exists>new accepted.
       accepted = filter (\<lambda>f. validateFile props (length (files st)) f = None) fileList \<and>
       file \<notin> set accepted \<and>
       files (fst (handleFiles logq props ids st fileList)) = files st @ new \<and>
       map (\<lambda>r. (filename r, file_size r)) new = map (\<lambda>f. (fname f, fsize f)) accepted \<and>
       (\<forall>r \<in> set new. file_size r \<le> maxFileSize props) \<and>
       snd (handleFiles logq props ids st fileList) =
         (if new = [] then None else Some (accepted, new)))"
proof -
  have rej: "validateFile props m file = Some (FileTooLarge (fsize file) (maxFileSize props))" for m
    using assms by (simp add: validateFile_def)
  let ?accepted = "filter (\<lambda>f. validateFile props (length (files st)) f = None) fileList"
  obtain new where new:
    "files (fst (handleFiles logq props ids st fileList)) = files st @ new"
    "map (\<lambda>r. (filename r, file_size r)) new = map (\<lambda>f. (fname f, fsize f)) ?accepted"
    "snd (handleFiles logq props ids st fileList) = (if new = [] then None else Some (?accepted, new))"
    using handleFiles_records [of logq props ids st fileList] by blast
  have notin: "file \<notin> set ?accepted" by (simp add: rej)
  have small: "fsize f \<le> maxFileSize props" if "f \<in> set ?accepted" for f
  proof (rule ccontr)
    assume "\<not> fsize f \<le> maxFileSize props"
    then have "validateFile props (length (files st)) f \<noteq> None"
      by (simp add: validateFile_def)
    with that show False by simp
  qed
  have "set (map file_size new) = set (map fsize ?accepted)"
  proof -
    have "map snd (map (\<lambda>r. (filename r, file_size r)) new)
        = map snd (map (\<lambda>f. (fname f, fsize f)) ?accepted)"
      by (simp only: new(2))
    then have "map file_size new = map fsize ?accepted" by (simp add: comp_def)
    then show ?thesis by simp
  qed
  then have sizes: "\<forall>r \<in> set new. file_size r \<le> maxFileSize props"
    using small by (metis (no_types, lifting) image_iff list.set_map)
  show ?thesis using rej new notin sizes by blast
qed

text \<open>
  At the default ceiling of 50 MB, a file of 52428801 bytes dropped together with a small
  image, on the platform with the exact quotient: the message names both sizes, and
  only the image gets a record.
\<close>

theorem oversize_file_rejected_witness:
  "maxFileSize defaultProps
     < fsize \<lparr> fname = ''big.pdf'', ftype = ''application/pdf'', fsize = 52428801, fcontent = [] \<rparr> \<and>
   validateFile defaultProps 0
     \<lparr> fname = ''big.pdf'', ftype = ''application/pdf'', fsize = 52428801, fcontent = [] \<rparr>
     = Some (FileTooLarge 52428801 52428800) \<and>
   message exact_quotient (FileTooLarge 52428801 52428800)
     = ''File size (50 MB) exceeds maximum allowed (50 MB)'' \<and>
   map filename (files (fst (handleFiles exact_quotient defaultProps (\<lambda>i. show_nat i)
      \<lparr> files = [], error = None, uploading = False \<rparr>
      [\<lparr> fname = ''big.pdf'', ftype = ''application/pdf'', fsize = 52428801, fcontent = [] \<rparr>,
       \<lparr> fname = ''a.png'', ftype = ''image/png'', fsize = 10, fcontent = [] \<rparr>]))) = [''a.png'']"
proof -
  let ?f = "\<lparr> fname = ''big.pdf'', ftype = ''application/pdf'', fsize = 52428801, fcontent = [] \<rparr>"
  have h: "maxFileSize defaultProps < fsize ?f" by (simp add: defaultProps_def)
  from oversize_file_rejected [OF h, of 0]
  have "validateFile defaultProps 0 ?f = Some (FileTooLarge (fsize ?f) (maxFileSize defaultProps))"
    by blast
  moreover have "message exact_quotient (FileTooLarge 52428801 52428800)
      = ''File size (50 MB) exceeds maximum allowed (50 MB)''"
    by (simp add: formatFileSize_eval)
  moreover have "map filename (files (fst (handleFiles exact_quotient defaultProps (\<lambda>i. show_nat i)
      \<lparr> files = [], error = None, uploading = False \<rparr>
      [?f, \<lparr> fname = ''a.png'', ftype = ''image/png'', fsize = 10, fcontent = [] \<rparr>]))) = [''a.png'']"
    by (simp add: handleFiles_def validateFile_def defaultProps_def name_eval)
  ultimately show ?thesis using h by (simp add: defaultProps_def)
qed

subsection \<open>What validateFile checks\<close>

text \<open>
  Claim C4, as stated, fails: \<open>validateFile\<close> has no content check. A file named
  \<open>report.png\<close>, declared \<open>image/png\<close>, whose bytes are the header of a PDF document,
  passes validation.
\<close>

theorem validateFile_content_counterexample:
  "validateFile defaultProps 0
     \<lparr> fname = ''report.png'', ftype = ''image/png'', fsize = 8, fcontent = ''%PDF-1.4'' \<rparr> = None"
  by (simp add: validateFile_def defaultProps_def name_eval)

text \<open>
  Claim C4, amended. \<open>validateFile\<close> makes three checks in this order and reports the
  first that fails: the size against \<open>maxFileSize\<close>, the lower-cased last dot-separated
  part of the name (with a dot in front) against \<open>allowedTypes\<close>, and the number of
  stored files against \<open>maxFiles\<close>. The declared MIME type and the content of the file
  are not inspected: changing them does not change the verdict.
\<close>

theorem validateFile_checks:
  "validateFile props n file =
     (if maxFileSize props < fsize file
      then Some (FileTooLarge (fsize file) (maxFileSize props))
      else if ''.'' @ extension_of (fname file) \<notin> set (allowedTypes props)
      then Some (UnsupportedType (''.'' @ extension_of (fname file)) (allowedTypes props))
      else if maxFiles props \<le> n then Some (TooManyFiles (maxFiles props))
      else None) \<and>
   validateFile props n (file\<lparr> ftype := t, fcontent := c \<rparr>) = validateFile props n file"
  by (simp add: validateFile_def Let_def)

subsection \<open>The file type\<close>

text \<open>
  Claim C8, as stated, fails: two names with the extension \<open>pdf\<close> get different types
  when one of them contains the word transcript.
\<close>

theorem getFileType_transcript_counterexample:
  "extension_of ''transcript.pdf'' = extension_of ''report.pdf'' \<and>
   getFileType ''transcript.pdf'' = Transcript \<and>
   getFileType ''report.pdf'' = Document"
  by (simp add: getFileType_def name_eval)

text \<open>
  Claim C8, amended. The file type is derived from the extension and, for the extensions
  \<open>txt\<close>, \<open>docx\<close> and \<open>pdf\<close>, from whether the lower-cased name contains \<open>transcript\<close>:
  two names with the same extension that agree on this (or whose extension is none of
  the three) get the same type. The type is image exactly for the image extensions,
  spreadsheet exactly for \<open>xls\<close>, \<open>xlsx\<close>, \<open>csv\<close>, presentation exactly for \<open>ppt\<close>, \<open>pptx\<close>,
  transcript exactly for \<open>txt\<close>, \<open>docx\<close>, \<open>pdf\<close> with \<open>transcript\<close> in the name, and
  document otherwise.
\<close>

theorem getFileType_same_extension:
  assumes "extension_of a = extension_of b"
    and "extension_of a \<in> set [''txt'', ''docx'', ''pdf''] \<Longrightarrow>
           includes_str (toLowerCase a) ''transcript'' = includes_str (toLowerCase b) ''transcript''"
  shows "getFileType a = getFileType b \<and>
    (getFileType a = Image \<longleftrightarrow>
       extension_of a \<in> set [''jpg'', ''jpeg'', ''png'', ''gif'', ''bmp'', ''webp'']) \<and>
    (getFileType a = Spreadsheet \<longleftrightarrow> extension_of a \<in> set [''xls'', ''xlsx'', ''csv'']) \<and>
    (getFileType a = Presentation \<longleftrightarrow> extension_of a \<in> set [''ppt'', ''pptx'']) \<and>
    (getFileType a = Transcript \<longleftrightarrow>
       extension_of a \<in> set [''txt'', ''docx'', ''pdf''] \<and>
       includes_str (toLowerCase a) ''transcript'')"
proof -
  have same: "getFileType a = getFileType b"
    using assms by (auto simp add: getFileType_def Let_def)
  have cls: "(getFileType a = Image \<longleftrightarrow>
       extension_of a \<in> set [''jpg'', ''jpeg'', ''png'', ''gif'', ''bmp'', ''webp'']) \<and>
    (getFileType a = Spreadsheet \<longleftrightarrow> extension_of a \<in> set [''xls'', ''xlsx'', ''csv'']) \<and>
    (getFileType a = Presentation \<longleftrightarrow> extension_of a \<in> set [''ppt'', ''pptx'']) \<and>
    (getFileType a = Transcript \<longleftrightarrow>
       extension_of a \<in> set [''txt'', ''docx'', ''pdf''] \<and>
       includes_str (toLowerCase a) ''transcript'')"
    by (auto simp add: getFileType_def Let_def)
  from same cls show ?thesis by blast
qed

theorem getFileType_same_extension_witness:
  "extension_of ''Call Transcript.TXT'' = extension_of ''transcript-2.txt'' \<and>
   includes_str (toLowerCase ''Call Transcript.TXT'') ''transcript''
     = includes_str (toLowerCase ''transcript-2.txt'') ''transcript'' \<and>
   getFileType ''Call Transcript.TXT'' = getFileType ''transcript-2.txt'' \<and>
   getFileType ''transcript-2.txt'' = Transcript"
proof -
  have e: "extension_of ''Call Transcript.TXT'' = extension_of ''transcript-2.txt''"
    by (simp add: name_eval)
  have i: "includes_str (toLowerCase ''Call Transcript.TXT'') ''transcript''
     = includes_str (toLowerCase ''transcript-2.txt'') ''transcript''"
    by (simp add: name_eval)
  have t: "getFileType ''transcript-2.txt'' = Transcript"
    by (simp add: getFileType_def name_eval)
  from getFileType_same_extension [OF e i] e i t show ?thesis by blast
qed

subsection \<open>The file-count limit across a batch\<close>

text \<open>
  Claim C9. \<open>validateFile\<close> compares \<open>maxFiles\<close> with the number of files stored before
  the batch. When that number is below \<open>maxFiles\<close> and every file of the batch is within
  the size ceiling and of an allowed type, every file of the batch passes, and the
  stored list grows by the whole batch; so whenever the old count plus the batch
  exceeds \<open>maxFiles\<close>, the stored list ends up longer than \<open>maxFiles\<close>.
\<close>

theorem batch_exceeds_maxFiles:
  assumes "length (files st) < maxFiles props"
    and "\<forall>f \<in> set fileList. fsize f \<le> maxFileSize props \<and>
           ''.'' @ extension_of (fname f) \<in> set (allowedTypes props)"
  shows "(\<forall>f \<in> set fileList. validateFile props (length (files st)) f = None) \<and>
    length (files (fst (handleFiles logq props ids st fileList))) = length (files st) + length fileList \<and>
    (maxFiles props < length (files st) + length fileList \<longrightarrow>
       maxFiles props < length (files (fst (handleFiles logq props ids st fileList))))"
proof -
  have ok: "\<forall>f \<in> set fileList. validateFile props (length (files st)) f = None"
    using assms by (auto simp add: validateFile_def Let_def)
  then have all: "filter (\<lambda>f. validateFile props (length (files st)) f = None) fileList = fileList"
    by (simp add: filter_id_conv)
  obtain new where new:
    "files (fst (handleFiles logq props ids st fileList)) = files st @ new"
    "map (\<lambda>r. (filename r, file_size r)) new = map (\<lambda>f. (fname f, fsize f))
       (filter (\<lambda>f. validateFile props (length (files st)) f = None) fileList)"
    using handleFiles_records [of logq props ids st fileList] by blast
  have "length (map (\<lambda>r. (filename r, file_size r)) new)
      = length (map (\<lambda>f. (fname f, fsize f)) fileList)"
    using new(2) all by simp
  then have "length new = length fileList" by simp
  with new(1) ok show ?thesis by simp
qed

text \<open>Nine files stored, the default limit of ten, and a batch of two: eleven stored.\<close>

theorem batch_exceeds_maxFiles_witness:
  "length (files stored9) < maxFiles defaultProps \<and>
   2 \<le> length batch2 \<and>
   list_all (\<lambda>f. fsize f \<le> maxFileSize defaultProps \<and>
       ''.'' @ extension_of (fname f) \<in> set (allowedTypes defaultProps)) batch2 \<and>
   list_all (\<lambda>f. validateFile defaultProps (length (files stored9)) f = None) batch2 \<and>
   length (files (fst (handleFiles exact_quotient defaultProps (\<lambda>i. show_nat i) stored9 batch2))) = 11 \<and>
   maxFiles defaultProps
     < length (files (fst (handleFiles exact_quotient defaultProps (\<lambda>i. show_nat i) stored9 batch2)))"
proof -
  have h1: "length (files stored9) < maxFiles defaultProps"
    by (simp add: stored9_def defaultProps_def)
  have h2: "\<forall>f \<in> set batch2. fsize f \<le> maxFileSize defaultProps \<and>
           ''.'' @ extension_of (fname f) \<in> set (allowedTypes defaultProps)"
    by (simp add: batch2_def defaultProps_def name_eval)
  have n: "length (files stored9) + length batch2 = 11" "maxFiles defaultProps = 10"
    by (simp_all add: stored9_def batch2_def defaultProps_def)
  from batch_exceeds_maxFiles [OF h1 h2, of exact_quotient "\<lambda>i. show_nat i"] h1 h2 n
  show ?thesis by (simp add: list_all_iff batch2_def)
qed

section \<open>Properties of the role gate\<close>

text \<open>
  Claim C5. For every pair of roles, \<open>hasRequiredRole\<close> grants access exactly when the
  user's role is at least the required role in the ordering client < project_manager <
  admin; an admin passes every check and a client passes only the check for client.
\<close>

theorem hasRequiredRole_iff_order:
  "(hasRequiredRole userRole requiredRole \<longleftrightarrow> role_le requiredRole userRole) \<and>
   hasRequiredRole Admin requiredRole \<and>
   (hasRequiredRole Client requiredRole \<longleftrightarrow> requiredRole = Client)"
  by (cases userRole; cases requiredRole; simp add: hasRequiredRole_def role_le_def)

section \<open>Properties of the client portal\<close>

text \<open>
  Claim C6. With public access and a share token, \<open>fetchClientProposals\<close> sends a
  \<open>GET\<close> to the shared-proposal endpoint keyed by the token; its \<open>Authorization\<close> header
  is empty, the stored bearer token plays no part in the request, and the component
  shows what that endpoint answers.
\<close>

theorem share_token_request:
  assumes "isPublicAccess props" and "shareToken props = Some tok" and "tok \<noteq> []"
  shows "fetchClientProposals_request props token =
      \<lparr> http_method = ''GET'', url = ''/api/v1/proposals/shared/'' @ tok,
        authorization = [], content_type = ''application/json'' \<rparr> \<and>
    fetchClientProposals_request props token = fetchClientProposals_request props None \<and>
    \<not> prefix ''Bearer'' (authorization (fetchClientProposals_request props token)) \<and>
    fetchClientProposals fetch props token st =
      (case fetch \<lparr> http_method = ''GET'', url = ''/api/v1/proposals/shared/'' @ tok,
                    authorization = [], content_type = ''application/json'' \<rparr> of
         Failed statusText \<Rightarrow>
           st\<lparr> loading := False,
               portal_error := Some (''Failed to fetch proposals: '' @ statusText) \<rparr>
       | Ok (Array ps) \<Rightarrow>
           st\<lparr> proposals := ps,
               selectedProposal := (case ps of [] \<Rightarrow> selectedProposal st | p # qs \<Rightarrow> Some p),
               loading := False, portal_error := None \<rparr>
       | Ok (Single p) \<Rightarrow>
           st\<lparr> proposals := [p], selectedProposal := Some p,
               loading := False, portal_error := None \<rparr>)"
proof -
  obtain c cs where tok: "tok = c # cs" using assms(3) by (cases tok) auto
  have req: "fetchClientProposals_request props token =
      \<lparr> http_method = ''GET'', url = ''/api/v1/proposals/shared/'' @ tok,
        authorization = [], content_type = ''application/json'' \<rparr>" for token
    using assms(1,2) by (simp add: fetchClientProposals_request_def tok)
  show ?thesis
    unfolding fetchClientProposals_def req
    by (simp split: Response.splits ResponseData.splits)
qed

theorem share_token_request_witness:
  "isPublicAccess \<lparr> clientId = None, shareToken = Some ''abc123'', isPublicAccess = True \<rparr> \<and>
   shareToken \<lparr> clientId = None, shareToken = Some ''abc123'', isPublicAccess = True \<rparr>
     = Some ''abc123'' \<and>
   ''abc123'' \<noteq> [] \<and>
   fetchClientProposals_request
       \<lparr> clientId = None, shareToken = Some ''abc123'', isPublicAccess = True \<rparr> (Some ''jwt'') =
      \<lparr> http_method = ''GET'', url = ''/api/v1/proposals/shared/abc123'',
        authorization = [], content_type = ''application/json'' \<rparr>"
proof -
  let ?props = "\<lparr> clientId = None, shareToken = Some ''abc123'', isPublicAccess = True \<rparr>"
  have h: "isPublicAccess ?props" "shareToken ?props = Some ''abc123''" "''abc123'' \<noteq> []"
    by simp_all
  from share_token_request [OF h, of "Some ''jwt''"] h show ?thesis by simp
qed

subsection \<open>What a client is shown\<close>

lemma query_statuses_portal: "query_statuses status_params = [Approved, Sent, Accepted]"
  by (simp add: query_statuses_def status_params_def strip_prefix_def status_names_def
      List.map_filter_simps)

lemma serve_listing:
  assumes "\<not> isPublicAccess props"
  shows "serve srv (fetchClientProposals_request props (Some tok)) =
     (case map_of (sessions srv) tok of
        None \<Rightarrow> Failed ''Unauthorized''
      | Some u \<Rightarrow> Ok (Array (list_proposals srv u [Approved, Sent, Accepted])))"
proof -
  have url: "url (fetchClientProposals_request props (Some tok))
      = ''/api/v1/proposals/?'' @ status_params"
    using assms by (simp add: fetchClientProposals_request_def)
  have auth: "authorization (fetchClientProposals_request props (Some tok)) = ''Bearer '' @ tok"
    using assms by (simp add: fetchClientProposals_request_def)
  have a: "strip_prefix ''/api/v1/proposals/shared/'' (''/api/v1/proposals/?'' @ status_params) = None"
    by (simp add: strip_prefix_def)
  have b: "strip_prefix ''/api/v1/proposals/?'' (''/api/v1/proposals/?'' @ status_params)
      = Some status_params"
    by (simp add: strip_prefix_def)
  have c: "authenticate srv (''Bearer '' @ tok) = map_of (sessions srv) tok"
    by (simp add: authenticate_def strip_prefix_def)
  show ?thesis
    unfolding serve_def url auth a b c
    by (simp add: query_statuses_portal split: option.splits)
qed

lemma serve_shared:
  assumes "isPublicAccess props" and "shareToken props = Some t" and "t \<noteq> []"
  shows "serve srv (fetchClientProposals_request props token) =
     (case find (\<lambda>p. share_token p = Some t) (proposals_table srv) of
        None \<Rightarrow> Failed ''Not Found''
      | Some p \<Rightarrow> Ok (Single p))"
proof -
  obtain c cs where t: "t = c # cs" using assms(3) by (cases t) auto
  have url: "url (fetchClientProposals_request props token) = ''/api/v1/proposals/shared/'' @ t"
    using assms(1,2) by (simp add: fetchClientProposals_request_def t)
  have a: "strip_prefix ''/api/v1/proposals/shared/'' (''/api/v1/proposals/shared/'' @ t) = Some t"
    by (simp add: strip_prefix_def)
  show ?thesis unfolding serve_def url a by simp
qed

lemma list_proposals_assigned:
  "role u = Client \<Longrightarrow>
     list_proposals srv u sts =
       filter (\<lambda>p. sts = [] \<or> status p \<in> set sts)
         (filter (assigned_to srv (user_id u)) (proposals_table srv))"
  by (simp add: list_proposals_def conj_commute)

text \<open>
  Claim C2. For a user with role client whose bearer token the service knows, every
  proposal that \<open>fetchClientProposals\<close> shows is a stored proposal assigned to that
  client, and the result is the same for any two stores that agree on the proposals
  assigned to that client: what else is stored, for other clients, has no influence.
  On the share-token path, every proposal newly shown carries the share token of the
  request.
\<close>

theorem client_listing_only_shared:
  "(role u = Client \<and> map_of (sessions srv) tok = Some u \<and> \<not> isPublicAccess props \<longrightarrow>
      (\<forall>p \<in> set (proposals (fetchClientProposals (serve srv) props (Some tok) st)).
          p \<in> set (proposals_table srv) \<and> assigned_to srv (user_id u) p) \<and>
      (\<forall>srv2. sessions srv2 = sessions srv \<and> assignments srv2 = assignments srv \<and>
          filter (assigned_to srv (user_id u)) (proposals_table srv2)
            = filter (assigned_to srv (user_id u)) (proposals_table srv) \<longrightarrow>
          fetchClientProposals (serve srv2) props (Some tok) st
            = fetchClientProposals (serve srv) props (Some tok) st)) \<and>
   (isPublicAccess props \<and> shareToken props = Some t \<and> t \<noteq> [] \<longrightarrow>
      (\<forall>p \<in> set (proposals (fetchClientProposals (serve srv) props token st)).
          p \<in> set (proposals st) \<or> p \<in> set (proposals_table srv) \<and> share_token p = Some t))"
proof (intro conjI impI)
  assume h: "role u = Client \<and> map_of (sessions srv) tok = Some u \<and> \<not> isPublicAccess props"
  then have listing: "serve srv (fetchClientProposals_request props (Some tok))
      = Ok (Array (list_proposals srv u [Approved, Sent, Accepted]))"
    by (simp add: serve_listing)
  then have shown: "proposals (fetchClientProposals (serve srv) props (Some tok) st)
      = list_proposals srv u [Approved, Sent, Accepted]"
    by (simp add: fetchClientProposals_def Let_def)
  show "\<forall>p \<in> set (proposals (fetchClientProposals (serve srv) props (Some tok) st)).
          p \<in> set (proposals_table srv) \<and> assigned_to srv (user_id u) p"
    unfolding shown using h by (simp add: list_proposals_def)
  show "\<forall>srv2. sessions srv2 = sessions srv \<and> assignments srv2 = assignments srv \<and>
          filter (assigned_to srv (user_id u)) (proposals_table srv2)
            = filter (assigned_to srv (user_id u)) (proposals_table srv) \<longrightarrow>
          fetchClientProposals (serve srv2) props (Some tok) st
            = fetchClientProposals (serve srv) props (Some tok) st"
  proof (intro allI impI)
    fix srv2 :: Server
    assume s: "sessions srv2 = sessions srv \<and> assignments srv2 = assignments srv \<and>
          filter (assigned_to srv (user_id u)) (proposals_table srv2)
            = filter (assigned_to srv (user_id u)) (proposals_table srv)"
    then have same: "assigned_to srv2 = assigned_to srv"
      by (simp add: assigned_to_def fun_eq_iff)
    have "list_proposals srv2 u [Approved, Sent, Accepted]
        = list_proposals srv u [Approved, Sent, Accepted]"
      using h s by (simp only: list_proposals_assigned same)
    moreover have "serve srv2 (fetchClientProposals_request props (Some tok))
        = Ok (Array (list_proposals srv2 u [Approved, Sent, Accepted]))"
      using h s by (simp add: serve_listing)
    ultimately show "fetchClientProposals (serve srv2) props (Some tok) st
            = fetchClientProposals (serve srv) props (Some tok) st"
      using listing by (simp add: fetchClientProposals_def Let_def)
  qed
next
  assume h: "isPublicAccess props \<and> shareToken props = Some t \<and> t \<noteq> []"
  then have served: "serve srv (fetchClientProposals_request props token) =
     (case find (\<lambda>p. share_token p = Some t) (proposals_table srv) of
        None \<Rightarrow> Failed ''Not Found''
      | Some p \<Rightarrow> Ok (Single p))"
    by (simp add: serve_shared)
  show "\<forall>p \<in> set (proposals (fetchClientProposals (serve srv) props token st)).
          p \<in> set (proposals st) \<or> p \<in> set (proposals_table srv) \<and> share_token p = Some t"
  proof (cases "find (\<lambda>p. share_token p = Some t) (proposals_table srv)")
    case None
    then show ?thesis using served by (simp add: fetchClientProposals_def Let_def)
  next
    case (Some p)
    then have "p \<in> set (proposals_table srv) \<and> share_token p = Some t"
      by (auto simp add: find_Some_iff)
    then show ?thesis using served Some by (simp add: fetchClientProposals_def Let_def)
  qed
qed

text \<open>
  Two proposals, one assigned to the client with id 10 and one to another client: the
  client sees the first only.
\<close>

theorem client_listing_only_shared_witness:
  "role acme_user = Client \<and> map_of (sessions demo_server) ''jwt-acme'' = Some acme_user \<and>
   \<not> isPublicAccess client_props \<and>
   list_all (\<lambda>p. p \<in> set (proposals_table demo_server) \<and> assigned_to demo_server (user_id acme_user) p)
     (proposals (fetchClientProposals (serve demo_server) client_props (Some ''jwt-acme'') empty_portal)) \<and>
   map proposal_id
     (proposals (fetchClientProposals (serve demo_server) client_props (Some ''jwt-acme'') empty_portal))
     = [1]"
proof -
  have h: "role acme_user = Client \<and> map_of (sessions demo_server) ''jwt-acme'' = Some acme_user \<and>
     \<not> isPublicAccess client_props"
    by (simp add: acme_user_def demo_server_def client_props_def)
  from client_listing_only_shared [where u = acme_user and srv = demo_server
      and tok = "''jwt-acme''" and props = client_props and st = empty_portal] h
  have a: "\<forall>p \<in> set (proposals (fetchClientProposals (serve demo_server) client_props
        (Some ''jwt-acme'') empty_portal)).
      p \<in> set (proposals_table demo_server) \<and> assigned_to demo_server (user_id acme_user) p"
    by blast
  have pid: "proposal_id acme_offer = 1" "proposal_id globex_offer = 2"
    "status acme_offer = Sent" "status globex_offer = Approved"
    by (simp_all add: acme_offer_def globex_offer_def)
  have "list_proposals demo_server acme_user [Approved, Sent, Accepted] = [acme_offer]"
    by (simp add: list_proposals_def demo_server_def acme_user_def assigned_to_def pid)
  moreover have "serve demo_server (fetchClientProposals_request client_props (Some ''jwt-acme''))
      = Ok (Array (list_proposals demo_server acme_user [Approved, Sent, Accepted]))"
    using h by (simp add: serve_listing)
  ultimately have b: "map proposal_id (proposals (fetchClientProposals (serve demo_server)
      client_props (Some ''jwt-acme'') empty_portal)) = [1]"
    by (simp add: fetchClientProposals_def Let_def pid)
  from h a b show ?thesis by (simp add: list_all_iff)
qed

section \<open>Properties of the proposal editor\<close>

subsection \<open>Status changes\<close>

subsubsection \<open>The editor\<close>

lemma apply_patch_status:
  "apply_patch patch p = Inr p' \<Longrightarrow>
     status p' = status p \<or> allowed_transition (status p) (status p')"
  by (cases patch) (auto split: if_splits)

lemma update_first_edges:
  "update_first pid (apply_patch patch) store = Inr (store', p') \<Longrightarrow>
     list_all2 (\<lambda>q q'. status q' = status q \<or> allowed_transition (status q) (status q'))
       store store'"
proof (induction store arbitrary: store')
  case Nil
  then show ?case by simp
next
  case (Cons q qs)
  show ?case
  proof (cases "proposal_id q = pid")
    case True
    with Cons.prems have "apply_patch patch q = Inr p'" and "store' = p' # qs"
      by (auto split: sum.splits)
    then show ?thesis
      using apply_patch_status [of patch q p'] by (simp add: list_all2_refl)
  next
    case False
    with Cons.prems obtain qs' where "update_first pid (apply_patch patch) qs = Inr (qs', p')"
      and "store' = q # qs'"
      by (auto split: sum.splits)
    with Cons.IH [of qs'] show ?thesis by simp
  qed
qed

lemma update_first_Inl:
  "update_first pid f store = Inl e \<Longrightarrow> find (\<lambda>q. proposal_id q = pid) store = Some p \<Longrightarrow>
     f p = Inl e"
  by (induction store) (auto split: sum.splits if_splits)

lemma update_first_result:
  "find (\<lambda>q. proposal_id q = pid) store = Some p \<Longrightarrow> f p = Inr p' \<Longrightarrow>
     \<exists>store'. update_first pid f store = Inr (store', p') \<and> length store' = length store"
  by (induction store) (auto split: sum.splits if_splits)

lemma update_first_error:
  "find (\<lambda>q. proposal_id q = pid) store = Some p \<Longrightarrow> f p = Inl e \<Longrightarrow>
     update_first pid f store = Inl e"
  by (induction store) (auto split: sum.splits if_splits)

lemma handleStatusChange_edges:
  "(case handleStatusChange store proposalId st newStatus of (store', st') \<Rightarrow>
      list_all2 (\<lambda>q q'. status q' = status q \<or> allowed_transition (status q) (status q'))
        store store' \<and>
      (\<forall>p. proposal st \<noteq> None \<and> find (\<lambda>q. proposal_id q = proposalId) store = Some p \<longrightarrow>
         (if allowed_transition (status p) newStatus
          then proposal st' = Some (p\<lparr> status := newStatus \<rparr>) \<and>
               editor_error st' = editor_error st
          else updateProposal store proposalId (SetStatus newStatus) = Inl InvalidTransition \<and>
               store' = store \<and> proposal st' = proposal st \<and>
               editor_error st' = Some (error_text InvalidTransition))))"
proof (cases "proposal st")
  case None
  then show ?thesis by (simp add: handleStatusChange_def list_all2_refl)
next
  case (Some cur)
  show ?thesis
  proof (cases "updateProposal store proposalId (SetStatus newStatus)")
    case (Inl e)
    have "updateProposal store proposalId (SetStatus newStatus) = Inl InvalidTransition \<and> e = InvalidTransition
        \<and> \<not> allowed_transition (status p) newStatus"
      if "find (\<lambda>q. proposal_id q = proposalId) store = Some p" for p
    proof -
      from Inl that have "apply_patch (SetStatus newStatus) p = Inl e"
        by (auto simp add: updateProposal_def dest: update_first_Inl)
      then have "e = InvalidTransition \<and> \<not> allowed_transition (status p) newStatus"
        by (auto split: if_splits)
      with Inl show ?thesis by simp
    qed
    then show ?thesis using Some Inl
      by (auto simp add: handleStatusChange_def list_all2_refl)
  next
    case (Inr r)
    obtain store' p' where r: "r = (store', p')" by (cases r)
    have edges: "list_all2 (\<lambda>q q'. status q' = status q \<or> allowed_transition (status q) (status q'))
        store store'"
      using Inr r update_first_edges [of proposalId "SetStatus newStatus" store store' p']
      by (simp add: updateProposal_def)
    have "allowed_transition (status p) newStatus \<and> p' = p\<lparr> status := newStatus \<rparr>"
      if "find (\<lambda>q. proposal_id q = proposalId) store = Some p" for p
    proof -
      have "apply_patch (SetStatus newStatus) p \<noteq> Inl InvalidTransition"
      proof
        assume a: "apply_patch (SetStatus newStatus) p = Inl InvalidTransition"
        from update_first_error [where f = "apply_patch (SetStatus newStatus)", OF that a] Inr
        show False by (simp add: updateProposal_def)
      qed
      then have ok: "allowed_transition (status p) newStatus" by (auto split: if_splits)
      then have "apply_patch (SetStatus newStatus) p = Inr (p\<lparr> status := newStatus \<rparr>)" by simp
      from update_first_result [where f = "apply_patch (SetStatus newStatus)", OF that this] Inr r
      show ?thesis
        using ok by (auto simp add: updateProposal_def)
    qed
    then show ?thesis using Some Inr r edges
      by (auto simp add: handleStatusChange_def)
  qed
qed

subsubsection \<open>The bulk update\<close>

lemma no_self_transition: "\<not> allowed_transition s s"
  by (cases s) (simp_all add: allowed_transition_def)

lemma attempt_transition_Inr:
  "attempt_transition target p = Inr p' \<Longrightarrow>
     \<exists>s. target = Some s \<and> allowed_transition (status p) s \<and> p' = p\<lparr> status := s \<rparr>"
  by (cases target) (auto split: if_splits)

lemma attempt_transition_refused:
  "\<not> transition_allowed target p \<Longrightarrow> attempt_transition target p = Inl InvalidTransition"
  by (cases target) simp_all

lemma attempt_transition_granted:
  "allowed_transition (status p) s \<Longrightarrow> attempt_transition (Some s) p = Inr (p\<lparr> status := s \<rparr>)"
  by simp

lemma moved_refl: "moved target q q"
  by (simp add: moved_def)

lemma moved_trans: "moved target a b \<Longrightarrow> moved target b c \<Longrightarrow> moved target a c"
  by (auto simp add: moved_def no_self_transition)

lemma moved_edge:
  "moved target q q' \<Longrightarrow> status q' = status q \<or> allowed_transition (status q) (status q')"
  by (auto simp add: moved_def)

lemma update_first_moved:
  "update_first pid (attempt_transition target) store = Inr (store1, p1) \<Longrightarrow>
     list_all2 (moved target) store store1"
proof (induction store arbitrary: store1)
  case Nil
  then show ?case by simp
next
  case (Cons q qs)
  show ?case
  proof (cases "proposal_id q = pid")
    case True
    with Cons.prems have "attempt_transition target q = Inr p1" and "store1 = p1 # qs"
      by (auto split: sum.splits)
    then show ?thesis
      using attempt_transition_Inr [of target q p1]
      by (auto simp add: moved_def list_all2_refl)
  next
    case False
    with Cons.prems obtain qs' where
      "update_first pid (attempt_transition target) qs = Inr (qs', p1)" and "store1 = q # qs'"
      by (auto split: sum.splits)
    with Cons.IH [of qs'] show ?thesis by (simp add: moved_refl)
  qed
qed

lemma update_first_find_other:
  "pid' \<noteq> pid \<Longrightarrow> update_first pid' (attempt_transition target) store = Inr (store1, p1) \<Longrightarrow>
     find (\<lambda>q. proposal_id q = pid) store1 = find (\<lambda>q. proposal_id q = pid) store"
proof (induction store arbitrary: store1)
  case Nil
  then show ?case by simp
next
  case (Cons q qs)
  show ?case
  proof (cases "proposal_id q = pid'")
    case True
    with Cons.prems have "attempt_transition target q = Inr p1" and "store1 = p1 # qs"
      by (auto split: sum.splits)
    moreover from this have "proposal_id p1 = proposal_id q"
      using attempt_transition_Inr [of target q p1] by auto
    ultimately show ?thesis using True Cons.prems(1) by simp
  next
    case False
    with Cons.prems obtain qs' where
      "update_first pid' (attempt_transition target) qs = Inr (qs', p1)" and "store1 = q # qs'"
      by (auto split: sum.splits)
    with Cons.IH [of qs'] Cons.prems(1) show ?thesis by simp
  qed
qed

lemma update_first_find_same:
  "update_first pid f store = Inr (store1, p1) \<Longrightarrow> proposal_id p1 = pid \<Longrightarrow>
     find (\<lambda>q. proposal_id q = pid) store1 = Some p1"
  by (induction store arbitrary: store1) (auto split: sum.splits if_splits)

lemma attempt_on_refused:
  assumes "parse_id i = Some pid" and "find (\<lambda>q. proposal_id q = pid) store = Some p"
    and "\<not> transition_allowed target p"
  shows "attempt_on target i store = Inl InvalidTransition"
  using update_first_error [where f = "attempt_transition target", OF assms(2)
      attempt_transition_refused [OF assms(3)]] assms(1)
  by (simp add: attempt_on_def)

lemma attempt_on_keeps_refused:
  assumes "attempt_on target j store = Inr (store1, p1)"
    and "find (\<lambda>q. proposal_id q = pid) store = Some p" and "\<not> transition_allowed target p"
  shows "find (\<lambda>q. proposal_id q = pid) store1 = Some p"
proof -
  from assms(1) obtain pid' where j: "parse_id j = Some pid'"
    and u: "update_first pid' (attempt_transition target) store = Inr (store1, p1)"
    by (auto simp add: attempt_on_def split: option.splits)
  have "pid' \<noteq> pid"
  proof
    assume "pid' = pid"
    with attempt_on_refused [OF _ assms(2,3), of j] j assms(1) show False by simp
  qed
  from update_first_find_other [OF this u] assms(2) show ?thesis by simp
qed

lemma bulk_status_update_moved:
  "list_all2 (moved target) store (fst (bulk_status_update target ids store))"
proof (induction ids arbitrary: store)
  case Nil
  then show ?case by (simp add: list_all2_refl moved_refl)
next
  case (Cons i ids)
  show ?case
  proof (cases "attempt_on target i store")
    case (Inl e)
    then show ?thesis using Cons.IH [of store] by (auto split: prod.splits)
  next
    case (Inr r)
    obtain store1 p1 where r: "r = (store1, p1)" by (cases r)
    from Inr r have "list_all2 (moved target) store store1"
      by (auto simp add: attempt_on_def split: option.splits dest: update_first_moved)
    moreover have "list_all2 (moved target) store1 (fst (bulk_status_update target ids store1))"
      by (rule Cons.IH)
    ultimately have "list_all2 (moved target) store (fst (bulk_status_update target ids store1))"
      by (rule list_all2_trans [rotated]) (rule moved_trans)
    then show ?thesis using Inr r by simp
  qed
qed

lemma bulk_status_update_refused:
  "find (\<lambda>q. proposal_id q = pid) store = Some p \<Longrightarrow> \<not> transition_allowed target p \<Longrightarrow>
     find (\<lambda>q. proposal_id q = pid) (fst (bulk_status_update target ids store)) = Some p"
proof (induction ids arbitrary: store)
  case Nil
  then show ?case by simp
next
  case (Cons i ids)
  show ?case
  proof (cases "attempt_on target i store")
    case (Inl e)
    then show ?thesis using Cons.IH [OF Cons.prems] by (auto split: prod.splits)
  next
    case (Inr r)
    obtain store1 p1 where r: "r = (store1, p1)" by (cases r)
    from Inr r have "find (\<lambda>q. proposal_id q = pid) store1 = Some p"
      using attempt_on_keeps_refused [OF _ Cons.prems] by simp
    from Cons.IH [OF this Cons.prems(2)] show ?thesis using Inr r by simp
  qed
qed

lemma bulk_status_update_reports:
  "i \<in> set ids \<Longrightarrow> parse_id i = Some pid \<Longrightarrow>
   find (\<lambda>q. proposal_id q = pid) store = Some p \<Longrightarrow> \<not> transition_allowed target p \<Longrightarrow>
     i @ '': '' @ error_text InvalidTransition \<in> set (snd (bulk_status_update target ids store))"
proof (induction ids arbitrary: store)
  case Nil
  then show ?case by simp
next
  case (Cons j ids)
  show ?case
  proof (cases "attempt_on target j store")
    case (Inl e)
    show ?thesis
    proof (cases "j = i")
      case True
      with attempt_on_refused [OF Cons.prems(2,3,4)] Inl have "e = InvalidTransition" by simp
      with Inl True show ?thesis by (auto split: prod.splits)
    next
      case False
      with Cons.prems(1) have "i \<in> set ids" by simp
      from Cons.IH [OF this Cons.prems(2,3,4)] Inl show ?thesis by (auto split: prod.splits)
    qed
  next
    case (Inr r)
    obtain store1 p1 where r: "r = (store1, p1)" by (cases r)
    have "j \<noteq> i"
      using attempt_on_refused [OF Cons.prems(2,3,4)] Inr by auto
    with Cons.prems(1) have mem: "i \<in> set ids" by simp
    from Inr r have "find (\<lambda>q. proposal_id q = pid) store1 = Some p"
      using attempt_on_keeps_refused [OF _ Cons.prems(3,4)] by simp
    from Cons.IH [OF mem Cons.prems(2) this Cons.prems(4)] show ?thesis using Inr r by simp
  qed
qed

lemma bulk_status_update_granted:
  "i \<in> set ids \<Longrightarrow> parse_id i = Some pid \<Longrightarrow>
   find (\<lambda>q. proposal_id q = pid) store = Some p \<Longrightarrow> allowed_transition (status p) s \<Longrightarrow>
     find (\<lambda>q. proposal_id q = pid) (fst (bulk_status_update (Some s) ids store))
       = Some (p\<lparr> status := s \<rparr>)"
proof (induction ids arbitrary: store)
  case Nil
  then show ?case by simp
next
  case (Cons j ids)
  show ?case
  proof (cases "parse_id j = Some pid")
    case True
    from update_first_result [where f = "attempt_transition (Some s)", OF Cons.prems(3)
        attempt_transition_granted [OF Cons.prems(4)]]
    obtain store1 where u: "update_first pid (attempt_transition (Some s)) store
        = Inr (store1, p\<lparr> status := s \<rparr>)"
      by blast
    have id: "proposal_id (p\<lparr> status := s \<rparr>) = pid"
      using Cons.prems(3) by (auto simp add: find_Some_iff)
    have f1: "find (\<lambda>q. proposal_id q = pid) store1 = Some (p\<lparr> status := s \<rparr>)"
      using update_first_find_same [OF u id] .
    have "\<not> transition_allowed (Some s) (p\<lparr> status := s \<rparr>)"
      by (simp add: no_self_transition)
    from bulk_status_update_refused [OF f1 this, of ids]
    show ?thesis using True u by (simp add: attempt_on_def)
  next
    case False
    with Cons.prems(2) have "j \<noteq> i" by auto
    with Cons.prems(1) have mem: "i \<in> set ids" by simp
    show ?thesis
    proof (cases "attempt_on (Some s) j store")
      case (Inl e)
      from Cons.IH [OF mem Cons.prems(2,3,4)] Inl show ?thesis by (auto split: prod.splits)
    next
      case (Inr r)
      obtain store1 p1 where r: "r = (store1, p1)" by (cases r)
      from Inr r obtain pid' where j: "parse_id j = Some pid'"
        and u: "update_first pid' (attempt_transition (Some s)) store = Inr (store1, p1)"
        by (auto simp add: attempt_on_def split: option.splits)
      from j False have "pid' \<noteq> pid" by simp
      from update_first_find_other [OF this u] Cons.prems(3)
      have "find (\<lambda>q. proposal_id q = pid) store1 = Some p" by simp
      from Cons.IH [OF mem Cons.prems(2) this Cons.prems(4)] show ?thesis using Inr r by simp
    qed
  qed
qed

lemma handleBulkUpdate_status_update:
  assumes "operation_type (bulkOperation dash) = ''status_update''"
  shows "handleBulkUpdate other listing store dash =
     (case bulk_status_update (requested_status (bulkOperation dash)) (selectedProposals dash) store of
        (store', errs) \<Rightarrow>
          (store',
           if errs = []
           then (loadProposals listing (dash\<lparr> bulkUpdateDialogOpen := False \<rparr>))
                  \<lparr> selectedProposals := [], bulkOperation := initialBulkOperation \<rparr>
           else dash\<lparr> dashboard_error :=
                  Some (''Bulk update completed with errors: '' @ join '', '' errs) \<rparr>))"
  using assms
  by (simp add: handleBulkUpdate_def bulk_update_def requested_status_def Let_def
      split: prod.splits)

lemma handleBulkUpdate_edges:
  "operation_type (bulkOperation dash) = ''status_update'' \<longrightarrow>
   (case handleBulkUpdate other listing store dash of (store', dash') \<Rightarrow>
      list_all2 (\<lambda>q q'. status q' = status q \<or> allowed_transition (status q) (status q'))
        store store' \<and>
      (\<forall>i pid p. i \<in> set (selectedProposals dash) \<and> parse_id i = Some pid \<and>
           find (\<lambda>q. proposal_id q = pid) store = Some p \<longrightarrow>
         (if transition_allowed (requested_status (bulkOperation dash)) p
          then \<exists>s. requested_status (bulkOperation dash) = Some s \<and>
                 find (\<lambda>q. proposal_id q = pid) store' = Some (p\<lparr> status := s \<rparr>)
          else find (\<lambda>q. proposal_id q = pid) store' = Some p \<and>
               (\<exists>errs. i @ '': '' @ error_text InvalidTransition \<in> set errs \<and>
                  dashboard_error dash' =
                    Some (''Bulk update completed with errors: '' @ join '', '' errs)))))"
proof
  assume op: "operation_type (bulkOperation dash) = ''status_update''"
  let ?target = "requested_status (bulkOperation dash)"
  obtain store' errs where run:
    "bulk_status_update ?target (selectedProposals dash) store = (store', errs)"
    by (cases "bulk_status_update ?target (selectedProposals dash) store")
  have res: "handleBulkUpdate other listing store dash =
      (store',
       if errs = []
       then (loadProposals listing (dash\<lparr> bulkUpdateDialogOpen := False \<rparr>))
              \<lparr> selectedProposals := [], bulkOperation := initialBulkOperation \<rparr>
       else dash\<lparr> dashboard_error :=
              Some (''Bulk update completed with errors: '' @ join '', '' errs) \<rparr>)"
    by (simp add: handleBulkUpdate_status_update [OF op] run)
  have "list_all2 (moved ?target) store store'"
    using bulk_status_update_moved [of ?target store "selectedProposals dash"] run by simp
  then have edges: "list_all2 (\<lambda>q q'. status q' = status q \<or>
      allowed_transition (status q) (status q')) store store'"
    by (rule list_all2_mono) (rule moved_edge)
  have each: "if transition_allowed ?target p
          then \<exists>s. ?target = Some s \<and>
                 find (\<lambda>q. proposal_id q = pid) store' = Some (p\<lparr> status := s \<rparr>)
          else find (\<lambda>q. proposal_id q = pid) store' = Some p \<and>
               (\<exists>errs'. i @ '': '' @ error_text InvalidTransition \<in> set errs' \<and>
                  dashboard_error (snd (handleBulkUpdate other listing store dash)) =
                    Some (''Bulk update completed with errors: '' @ join '', '' errs'))"
    if i: "i \<in> set (selectedProposals dash)" and pid: "parse_id i = Some pid"
      and p: "find (\<lambda>q. proposal_id q = pid) store = Some p" for i pid p
  proof (cases "transition_allowed ?target p")
    case True
    then obtain s where s: "?target = Some s" "allowed_transition (status p) s"
      by (cases ?target) simp_all
    from bulk_status_update_granted [OF i pid p s(2)] run s(1)
    have "find (\<lambda>q. proposal_id q = pid) store' = Some (p\<lparr> status := s \<rparr>)" by simp
    with True s(1) show ?thesis by simp
  next
    case False
    from bulk_status_update_refused [OF p False, of "selectedProposals dash"] run
    have keep: "find (\<lambda>q. proposal_id q = pid) store' = Some p" by simp
    from bulk_status_update_reports [OF i pid p False] run
    have mem: "i @ '': '' @ error_text InvalidTransition \<in> set errs" by simp
    then have "errs \<noteq> []" by auto
    then have "dashboard_error (snd (handleBulkUpdate other listing store dash)) =
        Some (''Bulk update completed with errors: '' @ join '', '' errs)"
      by (simp add: res)
    with False keep mem show ?thesis by auto
  qed
  show "case handleBulkUpdate other listing store dash of (store', dash') \<Rightarrow>
      list_all2 (\<lambda>q q'. status q' = status q \<or> allowed_transition (status q) (status q'))
        store store' \<and>
      (\<forall>i pid p. i \<in> set (selectedProposals dash) \<and> parse_id i = Some pid \<and>
           find (\<lambda>q. proposal_id q = pid) store = Some p \<longrightarrow>
         (if transition_allowed (requested_status (bulkOperation dash)) p
          then \<exists>s. requested_status (bulkOperation dash) = Some s \<and>
                 find (\<lambda>q. proposal_id q = pid) store' = Some (p\<lparr> status := s \<rparr>)
          else find (\<lambda>q. proposal_id q = pid) store' = Some p \<and>
               (\<exists>errs. i @ '': '' @ error_text InvalidTransition \<in> set errs \<and>
                  dashboard_error dash' =
                    Some (''Bulk update completed with errors: '' @ join '', '' errs))))"
    using edges each unfolding res by (simp only: prod.case snd_conv) blast
qed

subsubsection \<open>Every status change\<close>

text \<open>
  Claim C1. The sources change a status in two places: \<open>handleStatusChange\<close> of the
  editor and \<open>handleBulkUpdate\<close> of the team dashboard, whose dialog also offers the
  value \<open>completed\<close>. After either, every stored proposal has its old status or one
  that an allowed edge leads to from the old one. In the editor, when the proposal
  exists and the edge from its status to the requested one is allowed, the editor shows
  it with the new status; when the edge is not allowed, the service answers
  \<open>InvalidTransition\<close>, the store and the proposal shown are unchanged, and the editor
  reports the error. In a bulk status update, a selected proposal for which the
  requested status is reachable by an allowed edge is stored with that status; one for
  which it is not (the edge is not allowed, or the value names no status, as
  \<open>completed\<close> does) is stored unchanged, and the dashboard reports \<open>InvalidTransition\<close>
  for its id.
\<close>

theorem status_moves_along_allowed_edges:
  "(case handleStatusChange store proposalId st newStatus of (store', st') \<Rightarrow>
      list_all2 (\<lambda>q q'. status q' = status q \<or> allowed_transition (status q) (status q'))
        store store' \<and>
      (\<forall>p. proposal st \<noteq> None \<and> find (\<lambda>q. proposal_id q = proposalId) store = Some p \<longrightarrow>
         (if allowed_transition (status p) newStatus
          then proposal st' = Some (p\<lparr> status := newStatus \<rparr>) \<and>
               editor_error st' = editor_error st
          else updateProposal store proposalId (SetStatus newStatus) = Inl InvalidTransition \<and>
               store' = store \<and> proposal st' = proposal st \<and>
               editor_error st' = Some (error_text InvalidTransition)))) \<and>
   (operation_type (bulkOperation dash) = ''status_update'' \<longrightarrow>
    (case handleBulkUpdate other listing store dash of (store', dash') \<Rightarrow>
      list_all2 (\<lambda>q q'. status q' = status q \<or> allowed_transition (status q) (status q'))
        store store' \<and>
      (\<forall>i pid p. i \<in> set (selectedProposals dash) \<and> parse_id i = Some pid \<and>
           find (\<lambda>q. proposal_id q = pid) store = Some p \<longrightarrow>
         (if transition_allowed (requested_status (bulkOperation dash)) p
          then \<exists>s. requested_status (bulkOperation dash) = Some s \<and>
                 find (\<lambda>q. proposal_id q = pid) store' = Some (p\<lparr> status := s \<rparr>)
          else find (\<lambda>q. proposal_id q = pid) store' = Some p \<and>
               (\<exists>errs. i @ '': '' @ error_text InvalidTransition \<in> set errs \<and>
                  dashboard_error dash' =
                    Some (''Bulk update completed with errors: '' @ join '', '' errs))))))"
  by (rule conjI [OF handleStatusChange_edges handleBulkUpdate_edges])

text \<open>
  In the editor, a proposal in status sent: the change to draft is refused and changes
  nothing, the change to accepted goes through. In the dashboard, a draft and a sent
  proposal selected: \<open>completed\<close> is refused for both and changes nothing, and
  \<open>in_review\<close> moves the draft and is refused for the sent one.
\<close>

theorem status_moves_along_allowed_edges_witness:
  "proposal (editing sent_proposal) \<noteq> None \<and>
   find (\<lambda>q. proposal_id q = 7) [sent_proposal] = Some sent_proposal \<and>
   \<not> allowed_transition (status sent_proposal) Draft \<and>
   handleStatusChange [sent_proposal] 7 (editing sent_proposal) Draft =
     ([sent_proposal], (editing sent_proposal)\<lparr> editor_error := Some ''InvalidTransition'' \<rparr>) \<and>
   allowed_transition (status sent_proposal) Accepted \<and>
   map status (fst (handleStatusChange [sent_proposal] 7 (editing sent_proposal) Accepted))
     = [Accepted] \<and>
   ''completed'' \<in> set bulk_status_options \<and>
   operation_type (bulkOperation (select_bulk_status ''completed'' bulk_dialog)) = ''status_update'' \<and>
   ''7'' \<in> set (selectedProposals (select_bulk_status ''completed'' bulk_dialog)) \<and>
   parse_id ''7'' = Some 7 \<and>
   find (\<lambda>q. proposal_id q = 7) [draft_proposal, sent_proposal] = Some sent_proposal \<and>
   \<not> transition_allowed
       (requested_status (bulkOperation (select_bulk_status ''completed'' bulk_dialog)))
       sent_proposal \<and>
   fst (handleBulkUpdate no_other_operation ListFailed [draft_proposal, sent_proposal]
          (select_bulk_status ''completed'' bulk_dialog))
     = [draft_proposal, sent_proposal] \<and>
   dashboard_error (snd (handleBulkUpdate no_other_operation ListFailed
          [draft_proposal, sent_proposal] (select_bulk_status ''completed'' bulk_dialog)))
     = Some ''Bulk update completed with errors: 1: InvalidTransition, 7: InvalidTransition'' \<and>
   map status (fst (handleBulkUpdate no_other_operation ListFailed
          [draft_proposal, sent_proposal] (select_bulk_status ''in_review'' bulk_dialog)))
     = [InReview, Sent] \<and>
   dashboard_error (snd (handleBulkUpdate no_other_operation ListFailed
          [draft_proposal, sent_proposal] (select_bulk_status ''in_review'' bulk_dialog)))
     = Some ''Bulk update completed with errors: 7: InvalidTransition''"
proof -
  have f: "proposal_id sent_proposal = 7" "status sent_proposal = Sent"
    "proposal_id draft_proposal = 1" "status draft_proposal = Draft"
    by (simp_all add: sent_proposal_def draft_proposal_def)
  have h: "proposal (editing sent_proposal) \<noteq> None \<and>
    find (\<lambda>q. proposal_id q = 7) [sent_proposal] = Some sent_proposal"
    by (simp add: editing_def f)
  have na: "\<not> allowed_transition (status sent_proposal) Draft"
    and ok: "allowed_transition (status sent_proposal) Accepted"
    by (simp_all add: f allowed_transition_def)
  obtain store' st' where r:
    "handleStatusChange [sent_proposal] 7 (editing sent_proposal) Draft = (store', st')"
    by (cases "handleStatusChange [sent_proposal] 7 (editing sent_proposal) Draft")
  from status_moves_along_allowed_edges [where store = "[sent_proposal]" and proposalId = 7
      and st = "editing sent_proposal" and newStatus = Draft, THEN conjunct1]
  have "\<forall>p. proposal (editing sent_proposal) \<noteq> None \<and>
        find (\<lambda>q. proposal_id q = 7) [sent_proposal] = Some p \<longrightarrow>
         (if allowed_transition (status p) Draft
          then proposal st' = Some (p\<lparr> status := Draft \<rparr>) \<and>
               editor_error st' = editor_error (editing sent_proposal)
          else updateProposal [sent_proposal] 7 (SetStatus Draft) = Inl InvalidTransition \<and>
               store' = [sent_proposal] \<and> proposal st' = proposal (editing sent_proposal) \<and>
               editor_error st' = Some (error_text InvalidTransition))"
    unfolding r by simp
  with h na have unchanged: "store' = [sent_proposal] \<and>
      proposal st' = proposal (editing sent_proposal) \<and>
      editor_error st' = Some (error_text InvalidTransition)"
    by metis
  have r1: "handleStatusChange [sent_proposal] 7 (editing sent_proposal) Draft =
     ([sent_proposal], (editing sent_proposal)\<lparr> editor_error := Some ''InvalidTransition'' \<rparr>)"
    using f by (simp add: handleStatusChange_def updateProposal_def editing_def allowed_transition_def)
  have r2: "map status (fst (handleStatusChange [sent_proposal] 7 (editing sent_proposal) Accepted))
      = [Accepted]"
    using f by (simp add: handleStatusChange_def updateProposal_def editing_def allowed_transition_def)
  have ids: "parse_id ''1'' = Some 1" "parse_id ''7'' = Some 7"
    by (simp_all add: parse_id_def digit_value_def)
  have opt: "''completed'' \<in> set bulk_status_options"
    by (simp add: bulk_status_options_def)
  have op: "operation_type (bulkOperation (select_bulk_status v bulk_dialog)) = ''status_update''"
    and sel: "selectedProposals (select_bulk_status v bulk_dialog) = [''1'', ''7'']" for v
    by (simp_all add: select_bulk_status_def bulk_dialog_def initialBulkOperation_def)
  have t1: "requested_status (bulkOperation (select_bulk_status ''completed'' bulk_dialog)) = None"
    and t2: "requested_status (bulkOperation (select_bulk_status ''in_review'' bulk_dialog))
      = Some InReview"
    by (simp_all add: requested_status_def select_bulk_status_def status_names_def)
  have b1: "bulk_status_update None [''1'', ''7''] [draft_proposal, sent_proposal]
      = ([draft_proposal, sent_proposal], [''1: InvalidTransition'', ''7: InvalidTransition''])"
    by (simp add: attempt_on_def ids f)
  have b2: "bulk_status_update (Some InReview) [''1'', ''7''] [draft_proposal, sent_proposal]
      = ([draft_proposal\<lparr> status := InReview \<rparr>, sent_proposal], [''7: InvalidTransition''])"
    by (simp add: attempt_on_def ids f allowed_transition_def)
  have c1: "fst (handleBulkUpdate no_other_operation ListFailed [draft_proposal, sent_proposal]
          (select_bulk_status ''completed'' bulk_dialog)) = [draft_proposal, sent_proposal]"
    and c2: "dashboard_error (snd (handleBulkUpdate no_other_operation ListFailed
          [draft_proposal, sent_proposal] (select_bulk_status ''completed'' bulk_dialog)))
     = Some ''Bulk update completed with errors: 1: InvalidTransition, 7: InvalidTransition''"
    by (simp_all add: handleBulkUpdate_status_update [OF op] sel t1 b1
        del: bulk_status_update.simps)
  have c3: "map status (fst (handleBulkUpdate no_other_operation ListFailed
          [draft_proposal, sent_proposal] (select_bulk_status ''in_review'' bulk_dialog)))
     = [InReview, Sent]"
    and c4: "dashboard_error (snd (handleBulkUpdate no_other_operation ListFailed
          [draft_proposal, sent_proposal] (select_bulk_status ''in_review'' bulk_dialog)))
     = Some ''Bulk update completed with errors: 7: InvalidTransition''"
    by (simp_all add: handleBulkUpdate_status_update [OF op] sel t2 b2 f
        del: bulk_status_update.simps)
  have found: "find (\<lambda>q. proposal_id q = 7) [draft_proposal, sent_proposal] = Some sent_proposal"
    by (simp add: f)
  have refused: "\<not> transition_allowed
       (requested_status (bulkOperation (select_bulk_status ''completed'' bulk_dialog)))
       sent_proposal"
    by (simp add: t1)
  from h na ok unchanged r1 r2 opt op sel ids found refused c1 c2 c3 c4 show ?thesis by simp
qed

subsection \<open>Parsing and saving\<close>

text \<open>
  Claim C7, as stated, fails: content without a section element is parsed into the
  single section \<open>main-content\<close> and saved wrapped into a section element, and a
  section of class \<open>header\<close> is saved with the class \<open>section\<close>. In both cases the saved
  content differs from the original; the last conjunct runs \<open>loadProposal\<close> and
  \<open>handleSave\<close> on a stored proposal.
\<close>

theorem parse_save_counterexample:
  "updatedContent (parseContentIntoSections ''<p>Hello</p>'')
     = ''<section class='' @ [dquote] @ ''section '' @ [dquote] @ ''><p>Hello</p></section>'' \<and>
   updatedContent (parseContentIntoSections ''<p>Hello</p>'') \<noteq> ''<p>Hello</p>'' \<and>
   updatedContent (parseContentIntoSections header_content)
     = ''<section class='' @ [dquote] @ ''section '' @ [dquote] @ ''><h1>Offer</h1></section>'' \<and>
   updatedContent (parseContentIntoSections header_content) \<noteq> header_content \<and>
   map content (fst (handleSave [hello_proposal] 7
      (loadProposal [hello_proposal] 7
         \<lparr> proposal = None, sections = [], editor_error = None, editMode = False \<rparr>)))
     = [''<section class='' @ [dquote] @ ''section '' @ [dquote] @ ''><p>Hello</p></section>'']"
  by code_simp

subsubsection \<open>The pattern on saved content\<close>

lemma closing_tag_no_overlap:
  assumes "prefix ''</section>'' (b @ ''</section>'' @ rest)" and "b \<noteq> []"
  shows "prefix ''</section>'' b"
proof -
  from assms(1) have "prefix ''</section>'' b \<or>
      (\<exists>us. ''</section>'' = b @ us \<and> prefix us (''</section>'' @ rest))"
    by (simp only: prefix_append)
  then consider "prefix ''</section>'' b"
    | us where "''</section>'' = b @ us" "prefix us (''</section>'' @ rest)"
    by blast
  then show ?thesis
  proof cases
    case 1
    then show ?thesis .
  next
    case 2
    show ?thesis
    proof (cases us)
      case Nil
      with 2(1) show ?thesis by simp
    next
      case (Cons u us')
      with 2(2) have u: "u = CHR ''<''" by simp
      from assms(2) obtain c b' where b: "b = c # b'" by (cases b) auto
      from 2(1) b have "''/section>'' = b' @ us" by simp
      then have "set us \<subseteq> set ''/section>''" by (metis set_append Un_upper2)
      with Cons u have "CHR ''<'' \<in> set ''/section>''" by auto
      then show ?thesis by simp
    qed
  qed
qed

lemma lazy_until_closing_tag:
  "\<not> includes_str body ''</section>'' \<Longrightarrow>
     lazy_until ''</section>'' (body @ ''</section>'' @ rest) = Some (body, rest)"
proof (induction body)
  case Nil
  then show ?case by simp
next
  case (Cons c cs)
  then have np: "\<not> prefix ''</section>'' (c # cs)" and nc: "\<not> includes_str cs ''</section>''"
    by simp_all
  have "\<not> prefix ''</section>'' ((c # cs) @ ''</section>'' @ rest)"
    using closing_tag_no_overlap [of "c # cs" rest] np by blast
  then have "lazy_until ''</section>'' ((c # cs) @ ''</section>'' @ rest)
      = map_option (\<lambda>(body, rest). (c # body, rest))
          (lazy_until ''</section>'' (cs @ ''</section>'' @ rest))"
    by (simp del: prefix_code)
  with Cons.IH [OF nc] show ?case by simp
qed

lemma wrap_section_alt:
  "wrap_section s = ''<section '' @ class_attr @ class_of s @ [dquote] @ ''>''
      @ section_content s @ ''</section>''"
  by (simp add: wrap_section_def class_attr_def class_of_def)

lemma match_after_class_wrapped:
  assumes "\<not> includes_str (section_content s) ''</section>''"
  shows "match_after_class (class_of s @ [dquote] @ ''>'' @ section_content s @ ''</section>'' @ rest)
     = Some (class_of s, section_content s, rest)"
  using lazy_until_closing_tag [OF assms, of rest]
  by (cases "aiGenerated s") (simp_all add: match_after_class_def class_of_def dquote_def)

lemma match_attributes_wrapped:
  assumes "\<not> includes_str (section_content s) ''</section>''"
  shows "match_attributes ('' '' @ class_attr @ class_of s @ [dquote] @ ''>''
            @ section_content s @ ''</section>'' @ rest)
     = Some (class_of s, section_content s, rest)"
proof -
  have here: "match_after_class
      (class_of s @ dquote # CHR ''>'' # section_content s @ ''</section>'' @ rest)
     = Some (class_of s, section_content s, rest)"
    using match_after_class_wrapped [OF assms, of rest] by simp
  show ?thesis
  proof (cases "aiGenerated s")
    case True
    with here show ?thesis
      by (simp add: class_attr_def class_of_def dquote_def Let_def)
  next
    case False
    with here show ?thesis
      by (simp add: class_attr_def class_of_def dquote_def Let_def)
  qed
qed

lemma exec_section_wrapped:
  assumes "\<not> includes_str (section_content s) ''</section>''"
  shows "exec_section (wrap_section s @ rest) = Some (class_of s, section_content s, rest)"
  using match_attributes_wrapped [OF assms, of rest]
  by (simp add: wrap_section_alt)

lemma collect_sections_Nil: "collect_sections i [] = []"
  by (simp add: collect_sections.simps)

lemma collect_sections_newline: "collect_sections i (CHR 0x0A # cs) = collect_sections i cs"
  by (simp add: collect_sections.simps [of i "CHR 0x0A # cs"] collect_sections.simps [of i cs])

lemma collect_sections_wrapped:
  assumes "\<not> includes_str (section_content s) ''</section>''"
  shows "collect_sections i (wrap_section s @ rest)
     = make_section i (class_of s) (section_content s) # collect_sections (Suc i) rest"
  using exec_section_wrapped [OF assms, of rest]
  by (simp add: collect_sections.simps [of i "wrap_section s @ rest"])

lemma collect_sections_updatedContent:
  "\<forall>s \<in> set secs. \<not> includes_str (section_content s) ''</section>'' \<Longrightarrow>
     collect_sections i (updatedContent secs) = reparsed i secs"
proof (induction secs arbitrary: i)
  case Nil
  then show ?case by (simp add: updatedContent_def collect_sections_Nil)
next
  case (Cons s ss)
  then have ok: "\<not> includes_str (section_content s) ''</section>''" by simp
  show ?case
  proof (cases ss)
    case Nil
    have "collect_sections i (wrap_section s @ []) = [make_section i (class_of s) (section_content s)]"
      unfolding collect_sections_wrapped [OF ok] by (simp add: collect_sections_Nil)
    then show ?thesis using Nil by (simp add: updatedContent_def)
  next
    case (Cons t ts)
    have "updatedContent (s # ss) = wrap_section s @ CHR 0x0A # updatedContent ss"
      using Cons by (simp add: updatedContent_def)
    then have "collect_sections i (updatedContent (s # ss))
        = make_section i (class_of s) (section_content s) # collect_sections (Suc i) (updatedContent ss)"
      by (simp add: collect_sections_wrapped [OF ok] collect_sections_newline)
    with Cons.IH [of "Suc i"] Cons.prems show ?thesis by simp
  qed
qed

lemma wrap_make_section:
  "wrap_section (make_section i (class_of s) (section_content s)) = wrap_section s"
  by (cases "aiGenerated s") (simp_all add: wrap_section_def make_section_def class_of_def)

lemma reparsed_fields:
  "map wrap_section (reparsed i secs) = map wrap_section secs \<and>
   map section_content (reparsed i secs) = map section_content secs \<and>
   map aiGenerated (reparsed i secs) = map aiGenerated secs"
proof (induction secs arbitrary: i)
  case Nil
  then show ?case by simp
next
  case (Cons s ss)
  have "aiGenerated (make_section i (class_of s) (section_content s)) = aiGenerated s"
    by (cases "aiGenerated s") (simp_all add: make_section_def class_of_def)
  moreover have "section_content (make_section i (class_of s) (section_content s))
      = section_content s"
    by (simp add: make_section_def)
  ultimately show ?case using Cons.IH [of "Suc i"] by (simp add: wrap_make_section)
qed

lemma fold_max_ge: "x \<in> set xs \<Longrightarrow> x \<le> fold max xs (m::nat)"
proof -
  assume "x \<in> set xs"
  then have "x \<le> Max (set (m # xs))" by (intro Max_ge) simp_all
  then show ?thesis by (simp only: Max.set_eq_fold)
qed

lemma fresh_id_unused: "q \<in> set store \<Longrightarrow> proposal_id q \<noteq> fresh_id store"
proof -
  assume "q \<in> set store"
  then have "proposal_id q \<in> set (map proposal_id store)" by simp
  then have "proposal_id q \<le> fold max (map proposal_id store) 0" by (rule fold_max_ge)
  then show ?thesis by (simp add: fresh_id_def)
qed

lemma find_append_last:
  "\<forall>q \<in> set xs. \<not> P q \<Longrightarrow> P c \<Longrightarrow> find P (xs @ [c]) = Some c"
  by (induction xs) simp_all

lemma create_then_get:
  "getProposal (fst (createProposal store p)) (proposal_id (snd (createProposal store p)))
     = Inr (snd (createProposal store p)) \<and>
   content (snd (createProposal store p)) = content p \<and>
   status (snd (createProposal store p)) = status p"
proof -
  let ?c = "p\<lparr> proposal_id := fresh_id store \<rparr>"
  have "find (\<lambda>q. proposal_id q = fresh_id store) (store @ [?c]) = Some ?c"
    by (rule find_append_last) (auto dest: fresh_id_unused)
  then show ?thesis by (simp add: createProposal_def getProposal_def Let_def)
qed

text \<open>
  Claim C7, amended. A proposal created and then fetched by its id comes back as it was
  stored, with the content and the status it was created with. Parsing and then saving
  reproduces the content when the content has the form \<open>handleSave\<close> writes: for a
  non-empty list of sections whose contents do not contain \<open></section>\<close>, parsing the
  saved content yields the same section contents and AI flags, and saving them again
  yields the same content.
\<close>

theorem parse_save_round_trip:
  "getProposal (fst (createProposal store p)) (proposal_id (snd (createProposal store p)))
     = Inr (snd (createProposal store p)) \<and>
   content (snd (createProposal store p)) = content p \<and>
   status (snd (createProposal store p)) = status p \<and>
   (secs \<noteq> [] \<and> (\<forall>s \<in> set secs. \<not> includes_str (section_content s) ''</section>'') \<longrightarrow>
      updatedContent (parseContentIntoSections (updatedContent secs)) = updatedContent secs \<and>
      map section_content (parseContentIntoSections (updatedContent secs))
        = map section_content secs \<and>
      map aiGenerated (parseContentIntoSections (updatedContent secs)) = map aiGenerated secs)"
proof -
  have "updatedContent (parseContentIntoSections (updatedContent secs)) = updatedContent secs \<and>
      map section_content (parseContentIntoSections (updatedContent secs))
        = map section_content secs \<and>
      map aiGenerated (parseContentIntoSections (updatedContent secs)) = map aiGenerated secs"
    if ne: "secs \<noteq> []" and ok: "\<forall>s \<in> set secs. \<not> includes_str (section_content s) ''</section>''"
  proof -
    have c: "collect_sections 0 (updatedContent secs) = reparsed 0 secs"
      using ok by (rule collect_sections_updatedContent)
    have "reparsed 0 secs \<noteq> []" using ne by (cases secs) simp_all
    with c have "parseContentIntoSections (updatedContent secs) = reparsed 0 secs"
      by (simp add: parseContentIntoSections_def Let_def)
    then show ?thesis using reparsed_fields [of 0 secs] by (simp add: updatedContent_def)
  qed
  with create_then_get [of store p] show ?thesis by blast
qed

text \<open>Two sections, one of them AI-generated, saved, parsed and saved again.\<close>

theorem parse_save_round_trip_witness:
  "two_sections \<noteq> [] \<and>
   list_all (\<lambda>s. \<not> includes_str (section_content s) ''</section>'') two_sections \<and>
   updatedContent (parseContentIntoSections (updatedContent two_sections))
     = updatedContent two_sections \<and>
   map title (parseContentIntoSections (updatedContent two_sections))
     = [''Scope'', ''Untitled Section'']"
proof -
  have ne: "two_sections \<noteq> []" by (simp add: two_sections_def)
  have ok: "\<forall>s \<in> set two_sections. \<not> includes_str (section_content s) ''</section>''"
    by (simp add: two_sections_def)
  from parse_save_round_trip [where secs = two_sections] ne ok
  have rt: "updatedContent (parseContentIntoSections (updatedContent two_sections))
     = updatedContent two_sections"
    by blast
  have t: "map title (parseContentIntoSections (updatedContent two_sections))
     = [''Scope'', ''Untitled Section'']"
    by code_simp
  from ne ok rt t show ?thesis by (simp add: list_all_iff)
qed


end
